theory Spec2Isabelle
  imports Complex_Main "HOL-Library.Sublist" "HOL-Library.AList"
begin

section \<open>The remote invocation engine of modal/functions.py\<close>

text \<open>
  A shallow embedding of \<^verbatim>\<open>src/modal/functions.py\<close>. Python objects (arguments,
  results, exception instances) are values of a type parameter \<open>'o\<close>. Every
  \<^verbatim>\<open>raise\<close> of the source is a value of the type \<open>error\<close>; a function that may raise
  returns \<open>'o error + result\<close>, with \<open>Inl\<close> for the exception. The collaborators that
  the module imports (the codec, the blob side-channel, the gRPC stub) are fields of the
  record \<open>client\<close>: they are parameters of every definition. They may raise as well: their
  result is \<open>'o + result\<close>, the exception object on the left. An exception object is an
  instance of Python's \<^verbatim>\<open>BaseException\<close>; \<open>is_Exception\<close> tells whether it is an instance
  of \<^verbatim>\<open>Exception\<close>, the class an \<^verbatim>\<open>except Exception\<close> handler catches, and
  \<open>is_TimeoutError\<close> whether it is an instance of the builtin \<^verbatim>\<open>TimeoutError\<close>.
\<close>

subsection \<open>Wire messages\<close>

type_synonym bytes = string

text \<open>
  Modelled from the spec: the protobuf declarations of \<^verbatim>\<open>modal_proto.api_pb2\<close> are not
  among the source files. The spec gives \<open>status \<in> {SUCCESS, FAILURE}\<close> and
  \<open>gen_status \<in> {NONE, COMPLETE}\<close>; the names are the ones functions.py uses.
\<close>

datatype GenericStatus = GENERIC_STATUS_SUCCESS | GENERIC_STATUS_FAILURE

datatype GeneratorStatus = GENERATOR_STATUS_NONE | GENERATOR_STATUS_COMPLETE

text \<open>
  The payload of a result is a protobuf oneof: \<^verbatim>\<open>WhichOneof("data_oneof")\<close> names the
  member that is set, or none. Reading \<^verbatim>\<open>result.data\<close> when it is not the member set
  gives the empty byte string.
\<close>

datatype data_oneof = Data bytes | Data_blob_id string | Data_not_set

record GenericResult =
  status :: GenericStatus
  gen_status :: GeneratorStatus
  data_oneof :: data_oneof
  exception :: string
  traceback :: string

record FunctionGetOutputsItem =
  idx :: nat
  result :: GenericResult

text \<open>
  \<^verbatim>\<open>FunctionInput(args=...)\<close> and \<^verbatim>\<open>FunctionInput(args_blob_id=...)\<close> set one field each;
  a field the constructor call does not name stays unset.
\<close>

record FunctionInput =
  args :: "bytes option"
  args_blob_id :: "string option"

record FunctionPutInputsItem =
  input :: FunctionInput
  item_idx :: nat

subsection \<open>Exceptions\<close>

datatype 'o error =
    ExecutionError string
  | InvalidError string
  | RemoteError string
  | TimeoutError
  | AssertionError
  | Propagated 'o

subsection \<open>The collaborators\<close>

datatype StatusCode = RESOURCE_EXHAUSTED | UNAVAILABLE | DEADLINE_EXCEEDED | INVALID_ARGUMENT

datatype rpc_method = FunctionMap | FunctionPutInputs | FunctionGetOutputs

datatype request =
    FunctionMapRequest string
  | FunctionPutInputsRequest string "FunctionPutInputsItem list" string
  | FunctionGetOutputsRequest string real bool

text \<open>
  The keyword arguments of a call of \<^verbatim>\<open>retry_transient_errors\<close>: \<open>None\<close> is a keyword
  the call does not pass (the callee's default applies). \<^verbatim>\<open>max_retries=None\<close> is
  \<open>Some Unlimited\<close>.
\<close>

datatype retries = Unlimited | Limit nat

record retry_kwargs =
  max_retries :: "retries option"
  base_delay :: "real option"
  additional_status_codes :: "StatusCode list option"

definition default_kwargs :: retry_kwargs where
  "default_kwargs = \<lparr>max_retries = None, base_delay = None, additional_status_codes = None\<rparr>"

record rpc_call =
  rpc_method :: rpc_method
  rpc_request :: request
  rpc_kwargs :: retry_kwargs

text \<open>
  What functions.py reaches through \<^verbatim>\<open>client\<close>, \<^verbatim>\<open>client.stub\<close> and its imports.
  \<open>MAX_OBJECT_SIZE_BYTES\<close> is a constant of \<^verbatim>\<open>_blob_utils\<close>, not among the source files.
  \<open>stub_FunctionMap\<close> and \<open>stub_FunctionPutInputs\<close> give what
  \<^verbatim>\<open>retry_transient_errors\<close> finally returns or raises for the request.
\<close>

record 'o client =
  MAX_OBJECT_SIZE_BYTES :: nat
  serialize :: "'o \<times> 'o \<Rightarrow> 'o + bytes"
  deserialize :: "bytes \<Rightarrow> 'o + 'o"
  blob_upload :: "bytes \<Rightarrow> 'o + string"
  blob_download :: "string \<Rightarrow> 'o + bytes"
  is_BaseException :: "'o \<Rightarrow> bool"
  is_Exception :: "'o \<Rightarrow> bool"
  is_TimeoutError :: "'o \<Rightarrow> bool"
  str_of :: "'o \<Rightarrow> string"
  type_repr :: "'o \<Rightarrow> string"
  stub_FunctionMap :: "string \<Rightarrow> 'o + string"
  stub_FunctionPutInputs :: "request \<Rightarrow> 'o + unit"

text \<open>
  Whether an exception that leaves a function is an instance of the builtin
  \<^verbatim>\<open>TimeoutError\<close>, the class \<^verbatim>\<open>poll_function\<close> raises: what a caller's
  \<^verbatim>\<open>except TimeoutError\<close> catches. The exception classes of \<^verbatim>\<open>modal.exception\<close> and
  \<^verbatim>\<open>AssertionError\<close> are not.
\<close>

fun is_timeout :: "'o client \<Rightarrow> 'o error \<Rightarrow> bool" where
  "is_timeout client TimeoutError = True"
| "is_timeout client (Propagated exc) = is_TimeoutError client exc"
| "is_timeout client e = False"

subsection \<open>The result decoder\<close>

definition result_data :: "'o client \<Rightarrow> GenericResult \<Rightarrow> 'o + bytes" where
  "result_data client r =
     (case data_oneof r of
        Data_blob_id b \<Rightarrow> blob_download client b
      | Data d \<Rightarrow> Inr d
      | Data_not_set \<Rightarrow> Inr [])"

definition deserialize_error_message :: "string \<Rightarrow> string \<Rightarrow> string" where
  "deserialize_error_message deser_exc tb =
     ''Could not deserialize remote exception due to local error:'' @ [CHR 0x0A]
     @ deser_exc @ [CHR 0x0A]
     @ ''This can happen if your local environment does not have the remote exception definitions.''
     @ [CHR 0x0A]
     @ ''Here is the remote traceback:'' @ [CHR 0x0A]
     @ tb"

definition process_result :: "'o client \<Rightarrow> GenericResult \<Rightarrow> 'o error + 'o" where
  "process_result client r =
     (case result_data client r of
        Inl e \<Rightarrow> Inl (Propagated e)
      | Inr d \<Rightarrow>
          if status r \<noteq> GENERIC_STATUS_SUCCESS then
            (if d \<noteq> [] then
               (case deserialize client d of
                  Inl deser_exc \<Rightarrow>
                    if is_Exception client deser_exc then
                      Inl (ExecutionError
                             (deserialize_error_message (str_of client deser_exc) (traceback r)))
                    else Inl (Propagated deser_exc)
                | Inr exc \<Rightarrow>
                    if \<not> is_BaseException client exc then
                      Inl (ExecutionError
                             (''Got remote exception of incorrect type '' @ type_repr client exc))
                    else Inl (Propagated exc))
             else Inl (RemoteError (exception r)))
          else
            (case deserialize client d of
               Inl e \<Rightarrow> Inl (Propagated e)
             | Inr v \<Rightarrow> Inr v))"

subsection \<open>The input encoder\<close>

text \<open>
  \<^verbatim>\<open>_create_input(args, kwargs, client, idx=None)\<close>. An \<^verbatim>\<open>idx\<close> of \<^verbatim>\<open>None\<close> leaves the
  field of the protobuf message unset, which reads as 0.
\<close>

definition create_input ::
  "'o client \<Rightarrow> 'o \<Rightarrow> 'o \<Rightarrow> nat option \<Rightarrow> 'o error + FunctionPutInputsItem" where
  "create_input client fn_args kwargs idx_arg =
     (case serialize client (fn_args, kwargs) of
        Inl e \<Rightarrow> Inl (Propagated e)
      | Inr args_serialized \<Rightarrow>
          if length args_serialized > MAX_OBJECT_SIZE_BYTES client then
            (case blob_upload client args_serialized of
               Inl e \<Rightarrow> Inl (Propagated e)
             | Inr blob_id \<Rightarrow>
                 Inr \<lparr>input = \<lparr>args = None, args_blob_id = Some blob_id\<rparr>,
                      item_idx = (case idx_arg of None \<Rightarrow> 0 | Some i \<Rightarrow> i)\<rparr>)
          else
            Inr \<lparr>input = \<lparr>args = Some args_serialized, args_blob_id = None\<rparr>,
                 item_idx = (case idx_arg of None \<Rightarrow> 0 | Some i \<Rightarrow> i)\<rparr>)"

subsection \<open>Invocation: one call\<close>

text \<open>
  An asynchronous generator or coroutine that awaits the server is run against a script:
  the list of what the environment hands to it, in the order it asks. It ends \<open>Returned\<close>,
  or \<open>Raised\<close> with the exception, or \<open>Blocked\<close> when the script is used up while it awaits
  the next response (it has not returned).
\<close>

datatype 'o outcome = Returned | Raised "'o error" | Blocked

text \<open>
  One entry of the script of a polling loop: what \<^verbatim>\<open>retry_transient_errors\<close> returns (or
  raises) for the call of \<^verbatim>\<open>FunctionGetOutputs\<close>, and the value \<^verbatim>\<open>time.time()\<close> has when
  it is read after that call.

  A Python float is the real number it denotes. The sum and the difference of two floats
  are rounded: \<open>float_add\<close> and \<open>float_sub\<close> stand for the two operations of the platform,
  and are parameters. Comparison and \<^verbatim>\<open>min\<close> are exact.
\<close>

record float_ops =
  float_add :: "real \<Rightarrow> real \<Rightarrow> real"
  float_sub :: "real \<Rightarrow> real \<Rightarrow> real"

type_synonym 'o poll_script = "(('o + FunctionGetOutputsItem list) \<times> real) list"

record 'o Invocation =
  inv_client :: "'o client"
  function_call_id :: string

definition uninitialized_message :: string where
  "uninitialized_message =
     ''The function has not been initialized.'' @ [CHR 0x0A, CHR 0x0A]
     @ ''Modal functions can only be called within an app. ''
     @ ''Try calling it from another running modal function or from an app run context:''
     @ [CHR 0x0A, CHR 0x0A] @ ''with app.run():'' @ [CHR 0x0A]
     @ ''    my_modal_function()'' @ [CHR 0x0A]"

definition put_inputs_kwargs :: retry_kwargs where
  "put_inputs_kwargs =
     \<lparr>max_retries = Some Unlimited, base_delay = None,
      additional_status_codes = Some [RESOURCE_EXHAUSTED]\<rparr>"

text \<open>
  \<^verbatim>\<open>Invocation.create\<close>, with the calls of \<^verbatim>\<open>retry_transient_errors\<close> it makes, oldest
  first. A \<^verbatim>\<open>function_id\<close> that is \<^verbatim>\<open>None\<close> or empty is the empty string.
\<close>

definition create ::
  "'o client \<Rightarrow> string \<Rightarrow> 'o \<Rightarrow> 'o \<Rightarrow> ('o error + 'o Invocation) \<times> rpc_call list" where
  "create client function_id fn_args kwargs =
     (if function_id = [] then (Inl (InvalidError uninitialized_message), [])
      else
        let call_map = \<lparr>rpc_method = FunctionMap, rpc_request = FunctionMapRequest function_id,
                         rpc_kwargs = default_kwargs\<rparr>
        in case stub_FunctionMap client function_id of
             Inl e \<Rightarrow> (Inl (Propagated e), [call_map])
           | Inr call_id \<Rightarrow>
               (case create_input client fn_args kwargs None of
                  Inl e \<Rightarrow> (Inl e, [call_map])
                | Inr item \<Rightarrow>
                    let request_put = FunctionPutInputsRequest function_id [item] call_id;
                        call_put = \<lparr>rpc_method = FunctionPutInputs, rpc_request = request_put,
                                     rpc_kwargs = put_inputs_kwargs\<rparr>
                    in case stub_FunctionPutInputs client request_put of
                         Inl e \<Rightarrow> (Inl (Propagated e), [call_map, call_put])
                       | Inr u \<Rightarrow>
                           (Inr \<lparr>inv_client = client, function_call_id = call_id\<rparr>,
                            [call_map, call_put])))"

record 'o get_items_run =
  polls :: "rpc_call list"
  items :: "GenericResult list"
  ending :: "'o outcome"
  rest :: "'o poll_script"

definition get_outputs_call :: "string \<Rightarrow> real \<Rightarrow> rpc_call" where
  "get_outputs_call call_id backend_timeout =
     \<lparr>rpc_method = FunctionGetOutputs,
      rpc_request = FunctionGetOutputsRequest call_id backend_timeout True,
      rpc_kwargs = default_kwargs\<rparr>"

text \<open>
  The loop of \<^verbatim>\<open>get_items\<close>. \<open>polls\<close> are the calls made, oldest first (the last one may
  still be awaited), \<open>items\<close> the results yielded, \<open>rest\<close> the part of the script not read.
\<close>

fun get_items_loop ::
  "float_ops \<Rightarrow> string \<Rightarrow> real option \<Rightarrow> real \<Rightarrow> real \<Rightarrow> 'o poll_script \<Rightarrow> 'o get_items_run" where
  "get_items_loop fl call_id timeout t0 backend_timeout [] =
     \<lparr>polls = [get_outputs_call call_id backend_timeout], items = [], ending = Blocked, rest = []\<rparr>"
| "get_items_loop fl call_id timeout t0 backend_timeout ((response, now) # script) =
     (case response of
        Inl e \<Rightarrow>
          \<lparr>polls = [get_outputs_call call_id backend_timeout], items = [],
           ending = Raised (Propagated e), rest = script\<rparr>
      | Inr outputs \<Rightarrow>
          if length outputs > 0 then
            \<lparr>polls = [get_outputs_call call_id backend_timeout], items = map result outputs,
             ending = Returned, rest = script\<rparr>
          else
            (case timeout of
               None \<Rightarrow>
                 (let run = get_items_loop fl call_id timeout t0 backend_timeout script
                  in run\<lparr>polls := get_outputs_call call_id backend_timeout # polls run\<rparr>)
             | Some t \<Rightarrow>
                 (let backend_timeout' = min 60 (float_sub fl (float_add fl t0 t) now) in
                  if backend_timeout' < 0 then
                    \<lparr>polls = [get_outputs_call call_id backend_timeout], items = [],
                     ending = Returned, rest = script\<rparr>
                  else
                    (let run = get_items_loop fl call_id timeout t0 backend_timeout' script
                     in run\<lparr>polls := get_outputs_call call_id backend_timeout # polls run\<rparr>))))"

text \<open>\<open>t0\<close> is the value of \<^verbatim>\<open>time.time()\<close> when \<^verbatim>\<open>get_items\<close> starts.\<close>

definition get_items ::
  "float_ops \<Rightarrow> string \<Rightarrow> real option \<Rightarrow> real \<Rightarrow> 'o poll_script \<Rightarrow> 'o get_items_run" where
  "get_items fl call_id timeout t0 script =
     get_items_loop fl call_id timeout t0
       (case timeout of None \<Rightarrow> 60 | Some t \<Rightarrow> min 60 t) script"

text \<open>\<^verbatim>\<open>poll_function\<close>: \<open>None\<close> when \<^verbatim>\<open>get_items\<close> has not returned within the script.\<close>

definition poll_function ::
  "float_ops \<Rightarrow> 'o client \<Rightarrow> string \<Rightarrow> real option \<Rightarrow> real \<Rightarrow> 'o poll_script
     \<Rightarrow> ('o error + 'o) option" where
  "poll_function fl client call_id timeout t0 script =
     (let run = get_items fl call_id timeout t0 script in
      case ending run of
        Blocked \<Rightarrow> None
      | Raised e \<Rightarrow> Some (Inl e)
      | Returned \<Rightarrow>
          if length (items run) = 0 then Some (Inl TimeoutError)
          else Some (process_result client (items run ! 0)))"

text \<open>
  The body of the \<^verbatim>\<open>async for\<close> of \<^verbatim>\<open>run_generator\<close> over the results of one
  \<^verbatim>\<open>get_items()\<close>: the values yielded, and how the loop is left.
\<close>

datatype 'o for_exit = Exhausted | Completed | Failed "'o error"

fun run_generator_items :: "'o client \<Rightarrow> GenericResult list \<Rightarrow> 'o list \<times> 'o for_exit" where
  "run_generator_items client [] = ([], Exhausted)"
| "run_generator_items client (r # rs) =
     (if gen_status r = GENERATOR_STATUS_COMPLETE then ([], Completed)
      else
        (case process_result client r of
           Inl e \<Rightarrow> ([], Failed e)
         | Inr v \<Rightarrow> (let (vs, ex) = run_generator_items client rs in (v # vs, ex))))"

lemma get_items_loop_rest:
  "ending (get_items_loop fl call_id timeout t0 bt script) = Returned \<Longrightarrow>
   length (rest (get_items_loop fl call_id timeout t0 bt script)) < length script"
proof (induction script arbitrary: bt)
  case Nil
  then show ?case by simp
next
  case (Cons a script)
  obtain response now where a: "a = (response, now)" by (cases a)
  show ?case
    using Cons.prems Cons.IH
    by (auto simp: a Let_def less_Suc_eq split: sum.splits option.splits if_splits)
qed

text \<open>
  \<^verbatim>\<open>run_generator\<close>: each turn of the \<^verbatim>\<open>while\<close> loop starts a new \<^verbatim>\<open>get_items()\<close> (no
  timeout) on what is left of the script.
\<close>

function run_generator ::
  "float_ops \<Rightarrow> 'o client \<Rightarrow> string \<Rightarrow> real \<Rightarrow> 'o poll_script \<Rightarrow> 'o list \<times> 'o outcome" where
  "run_generator fl client call_id t0 script =
     (let run = get_items fl call_id None t0 script in
      case ending run of
        Blocked \<Rightarrow> ([], Blocked)
      | Raised e \<Rightarrow> ([], Raised e)
      | Returned \<Rightarrow>
          (case run_generator_items client (items run) of
             (vs, Completed) \<Rightarrow> (vs, Returned)
           | (vs, Failed e) \<Rightarrow> (vs, Raised e)
           | (vs, Exhausted) \<Rightarrow>
               (let (ws, out) = run_generator fl client call_id t0 (rest run) in (vs @ ws, out))))"
  by pat_completeness auto
termination
  by (relation "measure (\<lambda>(fl, client, call_id, t0, script). length script)")
     (auto simp: get_items_def get_items_loop_rest)

declare run_generator.simps [simp del]

text \<open>The results the server has sent, in the order of arrival, over a whole script.\<close>

definition arrivals :: "'o poll_script \<Rightarrow> GenericResult list" where
  "arrivals script =
     concat (map (\<lambda>(response, now). case response of Inl e \<Rightarrow> [] | Inr outputs \<Rightarrow> map result outputs)
               script)"

subsection \<open>The Map engine\<close>

definition MAP_INVOCATION_CHUNK_SIZE :: nat where
  "MAP_INVOCATION_CHUNK_SIZE = 100"

text \<open>
  The first lines of \<^verbatim>\<open>map_invocation\<close>: the call of FunctionMap that gives the call id.
\<close>

definition map_invocation_start :: "'o client \<Rightarrow> string \<Rightarrow> ('o error + string) \<times> rpc_call list" where
  "map_invocation_start client function_id =
     (let call_map = \<lparr>rpc_method = FunctionMap, rpc_request = FunctionMapRequest function_id,
                       rpc_kwargs = default_kwargs\<rparr>
      in case stub_FunctionMap client function_id of
           Inl e \<Rightarrow> (Inl (Propagated e), [call_map])
         | Inr call_id \<Rightarrow> (Inr call_id, [call_map]))"

text \<open>
  \<^verbatim>\<open>drain_input_generator\<close> over the argument tuples of the input stream, from a given
  value of \<^verbatim>\<open>num_inputs\<close>: what it puts on the queue (\<open>None\<close> is the sentinel), the final
  \<^verbatim>\<open>num_inputs\<close>, and how it ends.
\<close>

fun drain_input_generator ::
  "'o client \<Rightarrow> 'o list \<Rightarrow> 'o \<Rightarrow> nat \<Rightarrow> FunctionPutInputsItem option list \<times> nat \<times> 'o outcome" where
  "drain_input_generator client [] kwargs num_inputs = ([None], num_inputs, Returned)"
| "drain_input_generator client (arg # stream) kwargs num_inputs =
     (case create_input client arg kwargs (Some num_inputs) of
        Inl e \<Rightarrow> ([], num_inputs, Raised e)
      | Inr item \<Rightarrow>
          (let (queue, n, out) = drain_input_generator client stream kwargs (num_inputs + 1)
           in (Some item # queue, n, out)))"

text \<open>
  Modelled from the spec: \<^verbatim>\<open>queue_batch_iterator\<close> of \<^verbatim>\<open>modal_utils.async_utils\<close> is not
  among the source files. The spec says of the pump task that it "dequeues Inputs in
  batches of up to MAP_INVOCATION_CHUNK_SIZE, flushing on the sentinel". Here the inputs
  dequeued are gathered in \<open>item_list\<close>; a batch is yielded when it is full, and on the
  sentinel what has been gathered is yielded, if there is any. The second component tells
  whether the sentinel was reached: without it the iterator keeps waiting on the queue.
\<close>

fun queue_batches :: "nat \<Rightarrow> 'a list \<Rightarrow> 'a option list \<Rightarrow> 'a list list \<times> bool" where
  "queue_batches max_batch_size item_list [] = ([], False)"
| "queue_batches max_batch_size item_list (None # queue) =
     (if item_list = [] then ([], True) else ([item_list], True))"
| "queue_batches max_batch_size item_list (Some x # queue) =
     (if length (item_list @ [x]) \<ge> max_batch_size then
        (let (batches, finished) = queue_batches max_batch_size [] queue
         in ((item_list @ [x]) # batches, finished))
      else queue_batches max_batch_size (item_list @ [x]) queue)"

definition queue_batch_iterator :: "'a option list \<Rightarrow> nat \<Rightarrow> 'a list list \<times> bool" where
  "queue_batch_iterator queue max_batch_size = queue_batches max_batch_size [] queue"

text \<open>
  The loop of \<^verbatim>\<open>pump_inputs\<close> over the batches the iterator yields: the calls made, and
  how the task ends. It ends \<open>Returned\<close> exactly when it has set \<^verbatim>\<open>have_all_inputs\<close>.
\<close>

fun pump_batches ::
  "'o client \<Rightarrow> string \<Rightarrow> string \<Rightarrow> FunctionPutInputsItem list list \<Rightarrow> bool
     \<Rightarrow> rpc_call list \<times> 'o outcome" where
  "pump_batches client function_id call_id [] finished =
     ([], if finished then Returned else Blocked)"
| "pump_batches client function_id call_id (batch # batches) finished =
     (let request = FunctionPutInputsRequest function_id batch call_id;
          call_put = \<lparr>rpc_method = FunctionPutInputs, rpc_request = request,
                       rpc_kwargs = put_inputs_kwargs\<rparr>
      in case stub_FunctionPutInputs client request of
           Inl e \<Rightarrow> ([call_put], Raised (Propagated e))
         | Inr u \<Rightarrow>
             (let (calls, out) = pump_batches client function_id call_id batches finished
              in (call_put # calls, out)))"

definition pump_inputs ::
  "'o client \<Rightarrow> string \<Rightarrow> string \<Rightarrow> FunctionPutInputsItem option list \<Rightarrow> rpc_call list \<times> 'o outcome" where
  "pump_inputs client function_id call_id input_queue =
     (let (batches, finished) = queue_batch_iterator input_queue MAP_INVOCATION_CHUNK_SIZE
      in pump_batches client function_id call_id batches finished)"

text \<open>
  The variables of \<^verbatim>\<open>map_invocation\<close> that its tasks share, the dictionary of
  \<^verbatim>\<open>poll_outputs\<close> (an association list with distinct keys, in insertion order), and the
  values \<^verbatim>\<open>poll_outputs\<close> has yielded, oldest first.
\<close>

datatype 'o OutputValue = OutputValue (value_of: 'o)

record 'o map_state =
  have_all_inputs :: bool
  num_outputs :: nat
  num_inputs :: nat
  pending_outputs :: "(nat \<times> 'o) list"
  yielded :: "'o OutputValue list"

text \<open>
  One entry of the script of \<^verbatim>\<open>poll_outputs\<close>: the response to the call of
  FunctionGetOutputs, and the values the other two tasks have given \<^verbatim>\<open>have_all_inputs\<close>
  and \<^verbatim>\<open>num_inputs\<close> by the time \<^verbatim>\<open>poll_outputs\<close> reads them after handling the response.
\<close>

record 'o poll_event =
  response :: "'o + FunctionGetOutputsItem list"
  seen_have_all_inputs :: bool
  seen_num_inputs :: nat

text \<open>The \<^verbatim>\<open>for\<close> loop over the outputs of one response.\<close>

fun store_outputs ::
  "'o client \<Rightarrow> bool \<Rightarrow> FunctionGetOutputsItem list \<Rightarrow> 'o map_state
     \<Rightarrow> 'o map_state \<times> 'o error option" where
  "store_outputs client is_generator [] st = (st, None)"
| "store_outputs client is_generator (item # outputs) st =
     (if is_generator then
        (if gen_status (result item) = GENERATOR_STATUS_COMPLETE then
           store_outputs client is_generator outputs (st\<lparr>num_outputs := num_outputs st + 1\<rparr>)
         else
           (case process_result client (result item) of
              Inl e \<Rightarrow> (st, Some e)
            | Inr output \<Rightarrow>
                store_outputs client is_generator outputs
                  (st\<lparr>yielded := yielded st @ [OutputValue output]\<rparr>)))
      else
        (case process_result client (result item) of
           Inl e \<Rightarrow> (st, Some e)
         | Inr output \<Rightarrow>
             store_outputs client is_generator outputs
               (st\<lparr>pending_outputs := AList.update (idx item) output (pending_outputs st)\<rparr>)))"

lemma length_delete_less:
  "map_of al k = Some v \<Longrightarrow> length (AList.delete k al) < length al"
  by (induction al) (auto simp: AList.delete_eq less_Suc_eq_le split: if_splits)

text \<open>The loop \<^verbatim>\<open>while num_outputs in pending_outputs\<close>.\<close>

function send_sequentially :: "'o map_state \<Rightarrow> 'o map_state" where
  "send_sequentially st =
     (case map_of (pending_outputs st) (num_outputs st) of
        None \<Rightarrow> st
      | Some output \<Rightarrow>
          send_sequentially
            (st\<lparr>pending_outputs := AList.delete (num_outputs st) (pending_outputs st),
                yielded := yielded st @ [OutputValue output],
                num_outputs := num_outputs st + 1\<rparr>))"
  by pat_completeness auto
termination
  by (relation "measure (\<lambda>st. length (pending_outputs st))") (auto simp: length_delete_less)

declare send_sequentially.simps [simp del]

text \<open>
  One turn of the loop \<^verbatim>\<open>while True\<close> of \<^verbatim>\<open>poll_outputs\<close>, up to the test of
  \<^verbatim>\<open>have_all_inputs\<close>: the state when the test is made, or the exception raised before.
\<close>

definition poll_turn ::
  "'o client \<Rightarrow> bool \<Rightarrow> 'o map_state \<Rightarrow> 'o poll_event \<Rightarrow> 'o map_state \<times> 'o error option" where
  "poll_turn client is_generator st ev =
     (case response ev of
        Inl e \<Rightarrow> (st, Some (Propagated e))
      | Inr outputs \<Rightarrow>
          (case store_outputs client is_generator outputs st of
             (st1, Some e) \<Rightarrow> (st1, Some e)
           | (st1, None) \<Rightarrow>
               ((send_sequentially st1)\<lparr>have_all_inputs := seen_have_all_inputs ev,
                                         num_inputs := seen_num_inputs ev\<rparr>, None)))"

text \<open>The loop of \<^verbatim>\<open>poll_outputs\<close>, one turn for each entry of the script.\<close>

fun poll_outputs_loop ::
  "'o client \<Rightarrow> bool \<Rightarrow> 'o map_state \<Rightarrow> 'o poll_event list \<Rightarrow> 'o map_state \<times> 'o outcome" where
  "poll_outputs_loop client is_generator st [] = (st, Blocked)"
| "poll_outputs_loop client is_generator st (ev # script) =
     (case poll_turn client is_generator st ev of
        (st1, Some e) \<Rightarrow> (st1, Raised e)
      | (st3, None) \<Rightarrow>
          if have_all_inputs st3 then
            (if \<not> num_outputs st3 \<le> num_inputs st3 then (st3, Raised AssertionError)
             else if num_outputs st3 = num_inputs st3 then
               (if length (pending_outputs st3) = 0 then (st3, Returned)
                else (st3, Raised AssertionError))
             else poll_outputs_loop client is_generator st3 script)
          else poll_outputs_loop client is_generator st3 script)"

definition initial_map_state :: "'o map_state" where
  "initial_map_state =
     \<lparr>have_all_inputs = False, num_outputs = 0, num_inputs = 0, pending_outputs = [], yielded = []\<rparr>"

definition poll_outputs ::
  "'o client \<Rightarrow> bool \<Rightarrow> 'o poll_event list \<Rightarrow> 'o map_state \<times> 'o outcome" where
  "poll_outputs client is_generator script =
     poll_outputs_loop client is_generator initial_map_state script"



text \<open>
  For the statements: the outputs a script delivers, in the order of arrival; the
  completion markers among outputs; a value being the decoded result of an output with a
  given idx; and an invariant of \<^verbatim>\<open>poll_outputs\<close> for a function that is not a generator,
  \<open>pending_inv\<close>: the keys pending and the idx already sent are, without overlap, the idx
  received.
\<close>

definition received :: "'o poll_event list \<Rightarrow> FunctionGetOutputsItem list" where
  "received script =
     concat (map (\<lambda>ev. case response ev of Inl e \<Rightarrow> [] | Inr outputs \<Rightarrow> outputs) script)"



definition pending_inv :: "nat set \<Rightarrow> 'o map_state \<Rightarrow> bool" where
  "pending_inv seen st =
     (dom (map_of (pending_outputs st)) \<union> {0..<num_outputs st} = seen
      \<and> dom (map_of (pending_outputs st)) \<inter> {0..<num_outputs st} = {})"

subsection \<open>The Map engine: the three tasks together\<close>

text \<open>
  \<^verbatim>\<open>map_invocation\<close> for a function that is not a generator, with its three tasks
  interleaved. The tasks run one at a time and give way only where they await or yield, so
  a run is a schedule: the list of the steps taken, in order. \<^verbatim>\<open>stream.merge\<close> of
  aiostream is not part of the repository; it is taken to work as follows. A task that
  yields hands its item to the merge and stays suspended; the consumer receives the items
  handed over one at a time, in any order among the tasks; the task whose item the
  consumer has received resumes before the consumer receives another item. A task that
  raises is finished with its exception; the consumer receives the exception as it
  receives an item, and the merged stream ends with it.
\<close>



















subsection \<open>Functions and function calls\<close>

text \<open>
  \<^verbatim>\<open>_get_context\<close> reads the running app from the module \<^verbatim>\<open>.app\<close>, which is not among the
  source files: \<open>is_local\<close> and \<open>container_app\<close> stand for \<^verbatim>\<open>is_local()\<close> and
  \<^verbatim>\<open>_container_app\<close>, and \<open>app_object_id\<close> for \<^verbatim>\<open>app[self._tag].object_id\<close>. An object id
  that is \<^verbatim>\<open>None\<close> is the empty string.
\<close>

record 'o app =
  app_client :: "'o client"
  app_object_id :: string

record 'o app_module =
  is_local :: bool
  container_app :: "'o app"

record 'o Function =
  is_generator :: bool
  fn_client :: "'o client option"
  fn_object_id :: string
  local_app :: "'o app option"

record 'o FunctionCall =
  fc_client :: "'o client"
  object_id :: string

definition get_context :: "'o app_module \<Rightarrow> 'o Function \<Rightarrow> 'o error + 'o client \<times> string" where
  "get_context m f =
     (if fn_client f \<noteq> None \<and> fn_object_id f \<noteq> [] then Inr (the (fn_client f), fn_object_id f)
      else if is_local m then
        (case local_app f of
           None \<Rightarrow>
             Inl (InvalidError
               (''App is not running. You might need to put the function call ''
                @ ''inside a `with stub.run():` block.''))
         | Some a \<Rightarrow> Inr (app_client a, app_object_id a))
      else Inr (app_client (container_app m), app_object_id (container_app m)))"

definition call_function_nowait ::
  "'o app_module \<Rightarrow> 'o Function \<Rightarrow> 'o \<Rightarrow> 'o \<Rightarrow> ('o error + 'o Invocation) \<times> rpc_call list" where
  "call_function_nowait m f fn_args kwargs =
     (case get_context m f of
        Inl e \<Rightarrow> (Inl e, [])
      | Inr (client, function_id) \<Rightarrow> create client function_id fn_args kwargs)"

definition call_generator_nowait ::
  "'o app_module \<Rightarrow> 'o Function \<Rightarrow> 'o \<Rightarrow> 'o \<Rightarrow> ('o error + 'o Invocation) \<times> rpc_call list" where
  "call_generator_nowait m f fn_args kwargs =
     (case get_context m f of
        Inl e \<Rightarrow> (Inl e, [])
      | Inr (client, function_id) \<Rightarrow> create client function_id fn_args kwargs)"

definition submit ::
  "'o app_module \<Rightarrow> 'o Function \<Rightarrow> 'o \<Rightarrow> 'o \<Rightarrow> ('o error + 'o FunctionCall option) \<times> rpc_call list" where
  "submit m f fn_args kwargs =
     (if is_generator f then
        (case call_generator_nowait m f fn_args kwargs of
           (Inl e, calls) \<Rightarrow> (Inl e, calls)
         | (Inr invocation, calls) \<Rightarrow> (Inr None, calls))
      else
        (case call_function_nowait m f fn_args kwargs of
           (Inl e, calls) \<Rightarrow> (Inl e, calls)
         | (Inr invocation, calls) \<Rightarrow>
             (Inr (Some \<lparr>fc_client = inv_client invocation,
                          object_id = function_call_id invocation\<rparr>), calls)))"

subsection \<open>A concrete client for evaluation\<close>

datatype pyobj = PyNone | PyInt int | PyStr string | PyExc string string

definition demo_deserialize :: "bytes \<Rightarrow> pyobj + pyobj" where
  "demo_deserialize d =
     (case d of
        [] \<Rightarrow> Inl (PyExc ''EOFError'' ''Ran out of input'')
      | c # cs \<Rightarrow>
          if c = CHR ''E'' then Inr (PyExc ''Exception'' cs)
          else if c = CHR ''T'' then Inr (PyExc ''TimeoutError'' cs)
          else if c = CHR ''K'' then Inl (PyExc ''KeyboardInterrupt'' cs)
          else if c = CHR ''S'' then Inr (PyStr cs)
          else if c = CHR ''I'' then Inr (PyInt (int (length cs)))
          else Inl (PyExc ''UnpicklingError'' ''invalid load key''))"

definition demo_serialize :: "pyobj \<times> pyobj \<Rightarrow> pyobj + bytes" where
  "demo_serialize p =
     (case fst p of
        PyStr s \<Rightarrow> Inr (CHR ''S'' # s)
      | PyInt n \<Rightarrow> Inr (CHR ''I'' # replicate (nat n) CHR ''x'')
      | PyExc c m \<Rightarrow> Inr (CHR ''E'' # m)
      | PyNone \<Rightarrow> Inl (PyExc ''PicklingError'' ''cannot pickle''))"

definition demo_type_repr :: "pyobj \<Rightarrow> string" where
  "demo_type_repr v =
     (case v of
        PyNone \<Rightarrow> ''<class NoneType>''
      | PyInt n \<Rightarrow> ''<class int>''
      | PyStr s \<Rightarrow> ''<class str>''
      | PyExc c m \<Rightarrow> ''<class '' @ c @ ''>'')"

definition demo_str :: "pyobj \<Rightarrow> string" where
  "demo_str v = (case v of PyStr s \<Rightarrow> s | PyExc c m \<Rightarrow> m | PyInt n \<Rightarrow> ''int'' | PyNone \<Rightarrow> ''None'')"

definition demo_is_exception :: "pyobj \<Rightarrow> bool" where
  "demo_is_exception v = (case v of PyExc c m \<Rightarrow> True | _ \<Rightarrow> False)"

definition demo_is_Exception :: "pyobj \<Rightarrow> bool" where
  "demo_is_Exception v =
     (case v of PyExc c m \<Rightarrow> c \<noteq> ''KeyboardInterrupt'' \<and> c \<noteq> ''SystemExit'' | _ \<Rightarrow> False)"

definition demo_is_TimeoutError :: "pyobj \<Rightarrow> bool" where
  "demo_is_TimeoutError v = (case v of PyExc c m \<Rightarrow> c = ''TimeoutError'' | _ \<Rightarrow> False)"

definition demo_client :: "pyobj client" where
  "demo_client =
     \<lparr>MAX_OBJECT_SIZE_BYTES = 4,
      serialize = demo_serialize,
      deserialize = demo_deserialize,
      blob_upload = (\<lambda>b. if length b > 8 then Inl (PyExc ''RpcError'' ''upload'') else Inr (''bl-'' @ b)),
      blob_download = (\<lambda>b. if b = ''bl-missing'' then Inl (PyExc ''RpcError'' ''download'') else Inr (drop 3 b)),
      is_BaseException = demo_is_exception,
      is_Exception = demo_is_Exception,
      is_TimeoutError = demo_is_TimeoutError,
      str_of = demo_str,
      type_repr = demo_type_repr,
      stub_FunctionMap = (\<lambda>f. if f = ''fu-bad'' then Inl (PyExc ''RpcError'' ''not found'') else Inr (''fc-'' @ drop 3 f)),
      stub_FunctionPutInputs = (\<lambda>r. Inr ())\<rparr>"

text \<open>
  Arithmetic for the examples: their times are small integers, which floats add and
  subtract without rounding.
\<close>

definition exact_arithmetic :: float_ops where
  "exact_arithmetic = \<lparr>float_add = (\<lambda>x y. x + y), float_sub = (\<lambda>x y. x - y)\<rparr>"

definition failure_result :: "data_oneof \<Rightarrow> GenericResult" where
  "failure_result d =
     \<lparr>status = GENERIC_STATUS_FAILURE, gen_status = GENERATOR_STATUS_NONE, data_oneof = d,
      exception = ''ValueError(boom)'', traceback = ''Traceback: line 3''\<rparr>"

definition success_result :: "bytes \<Rightarrow> GenericResult" where
  "success_result d =
     \<lparr>status = GENERIC_STATUS_SUCCESS, gen_status = GENERATOR_STATUS_NONE, data_oneof = Data d,
      exception = [], traceback = []\<rparr>"

definition output_item :: "nat \<Rightarrow> GenericResult \<Rightarrow> FunctionGetOutputsItem" where
  "output_item i r = \<lparr>idx = i, result = r\<rparr>"

definition complete_result :: GenericResult where
  "complete_result =
     \<lparr>status = GENERIC_STATUS_SUCCESS, gen_status = GENERATOR_STATUS_COMPLETE,
      data_oneof = Data_not_set, exception = [], traceback = []\<rparr>"

definition demo_item :: "string \<Rightarrow> nat \<Rightarrow> FunctionPutInputsItem" where
  "demo_item b i = \<lparr>input = \<lparr>args = Some b, args_blob_id = None\<rparr>, item_idx = i\<rparr>"

definition demo_app_module :: "pyobj app_module" where
  "demo_app_module =
     \<lparr>is_local = True, container_app = \<lparr>app_client = demo_client, app_object_id = []\<rparr>\<rparr>"

definition demo_function :: "bool \<Rightarrow> pyobj Function" where
  "demo_function g =
     \<lparr>is_generator = g, fn_client = None, fn_object_id = [],
      local_app = Some \<lparr>app_client = demo_client, app_object_id = ''fu-1''\<rparr>\<rparr>"









section \<open>Theorems\<close>

subsection \<open>The result decoder on a failed result\<close>

text \<open>
  C4, as the code has it. For a result whose status is FAILURE and whose payload bytes
  \<open>d\<close> were obtained (inline, or downloaded from the blob): when \<open>d\<close> is not empty and
  deserialising it raises an instance of \<^verbatim>\<open>Exception\<close>, the decoder raises an
  ExecutionError whose message ends with the remote traceback; any other exception raised
  there is not caught by \<^verbatim>\<open>except Exception\<close> and leaves the decoder as it is; when the
  deserialised object is not an exception the decoder raises an ExecutionError that reports
  the incorrect type; when it is an exception, that exception is raised; and when \<open>d\<close> is
  empty it raises RemoteError with the result's exception string.
\<close>

theorem process_result_failure:
  assumes "status r = GENERIC_STATUS_FAILURE" and "result_data client r = Inr d"
  shows "(d \<noteq> [] \<longrightarrow> (\<forall>e. deserialize client d = Inl e \<longrightarrow> is_Exception client e \<longrightarrow>
            process_result client r =
              Inl (ExecutionError (deserialize_error_message (str_of client e) (traceback r)))
            \<and> suffix (traceback r) (deserialize_error_message (str_of client e) (traceback r))))
       \<and> (d \<noteq> [] \<longrightarrow> (\<forall>e. deserialize client d = Inl e \<longrightarrow> \<not> is_Exception client e \<longrightarrow>
            process_result client r = Inl (Propagated e)))
       \<and> (d \<noteq> [] \<longrightarrow> (\<forall>v. deserialize client d = Inr v \<longrightarrow> \<not> is_BaseException client v \<longrightarrow>
            process_result client r =
              Inl (ExecutionError (''Got remote exception of incorrect type '' @ type_repr client v))))
       \<and> (d \<noteq> [] \<longrightarrow> (\<forall>v. deserialize client d = Inr v \<longrightarrow> is_BaseException client v \<longrightarrow>
            process_result client r = Inl (Propagated v)))
       \<and> (d = [] \<longrightarrow> process_result client r = Inl (RemoteError (exception r)))"
  using assms
  by (auto simp: process_result_def deserialize_error_message_def suffix_def)

theorem process_result_failure_witness:
  "process_result demo_client (failure_result (Data ''xyz'')) =
     Inl (ExecutionError (deserialize_error_message ''invalid load key'' ''Traceback: line 3''))
   \<and> process_result demo_client (failure_result (Data ''S12'')) =
       Inl (ExecutionError ''Got remote exception of incorrect type <class str>'')
   \<and> process_result demo_client (failure_result (Data_blob_id ''bl-Eboom'')) =
       Inl (Propagated (PyExc ''Exception'' ''boom''))
   \<and> process_result demo_client (failure_result Data_not_set) = Inl (RemoteError ''ValueError(boom)'')"
proof -
  have s: "\<And>d. status (failure_result d) = GENERIC_STATUS_FAILURE"
    by (simp add: failure_result_def)
  have d1: "result_data demo_client (failure_result (Data ''xyz'')) = Inr ''xyz''"
    and d2: "result_data demo_client (failure_result (Data ''S12'')) = Inr ''S12''"
    and d3: "result_data demo_client (failure_result (Data_blob_id ''bl-Eboom'')) = Inr ''Eboom''"
    and d4: "result_data demo_client (failure_result Data_not_set) = Inr []"
    by (simp_all add: result_data_def failure_result_def demo_client_def)
  have e1: "deserialize demo_client ''xyz'' = Inl (PyExc ''UnpicklingError'' ''invalid load key'')"
    and x1: "is_Exception demo_client (PyExc ''UnpicklingError'' ''invalid load key'')"
    and e2: "deserialize demo_client ''S12'' = Inr (PyStr ''12'')"
    and e3: "deserialize demo_client ''Eboom'' = Inr (PyExc ''Exception'' ''boom'')"
    by (simp_all add: demo_client_def demo_deserialize_def demo_is_Exception_def)
  have c1: "process_result demo_client (failure_result (Data ''xyz'')) =
      Inl (ExecutionError (deserialize_error_message ''invalid load key'' ''Traceback: line 3''))"
    using process_result_failure [OF s d1] e1 x1
    by (simp add: failure_result_def demo_client_def demo_str_def)
  have c2: "process_result demo_client (failure_result (Data ''S12'')) =
      Inl (ExecutionError ''Got remote exception of incorrect type <class str>'')"
    using process_result_failure [OF s d2] e2
    by (simp add: demo_client_def demo_is_exception_def demo_type_repr_def)
  have c3: "process_result demo_client (failure_result (Data_blob_id ''bl-Eboom'')) =
      Inl (Propagated (PyExc ''Exception'' ''boom''))"
    using process_result_failure [OF s d3] e3
    by (simp add: demo_client_def demo_is_exception_def)
  have c4: "process_result demo_client (failure_result Data_not_set) = Inl (RemoteError ''ValueError(boom)'')"
    using process_result_failure [OF s d4]
    by (simp add: failure_result_def)
  from c1 c2 c3 c4 show ?thesis by simp
qed

text \<open>
  C4 as the spec words it (every raise of the deserialiser becomes an ExecutionError) fails:
  a \<^verbatim>\<open>KeyboardInterrupt\<close> raised while the payload is deserialised is not an
  \<^verbatim>\<open>Exception\<close>, so the handler does not catch it and it leaves the decoder unchanged.
\<close>

theorem process_result_interrupt_propagates:
  "status (failure_result (Data ''Kstop'')) = GENERIC_STATUS_FAILURE
   \<and> result_data demo_client (failure_result (Data ''Kstop'')) = Inr ''Kstop''
   \<and> deserialize demo_client ''Kstop'' = Inl (PyExc ''KeyboardInterrupt'' ''stop'')
   \<and> process_result demo_client (failure_result (Data ''Kstop''))
       = Inl (Propagated (PyExc ''KeyboardInterrupt'' ''stop''))"
  by (simp add: process_result_def result_data_def failure_result_def demo_client_def
      demo_deserialize_def demo_is_Exception_def)

subsection \<open>The input encoder chooses the payload by size\<close>

text \<open>
  C2. Let \<open>b\<close> be the serialised \<open>(args, kwargs)\<close> pair. Every record the encoder returns
  carries exactly one payload variant: when \<open>length b > MAX_OBJECT_SIZE_BYTES\<close> it is the id
  that the blob upload of \<open>b\<close> returned, with no inline bytes; when
  \<open>length b \<le> MAX_OBJECT_SIZE_BYTES\<close> it is \<open>b\<close> inline, with no blob id. In the inline case
  the encoder always returns a record, in the blob case whenever the upload succeeds.
\<close>

theorem create_input_payload:
  assumes "serialize client (fn_args, kwargs) = Inr b"
  shows "(\<forall>item. create_input client fn_args kwargs i = Inr item \<longrightarrow>
            (args (input item) = None) \<noteq> (args_blob_id (input item) = None))
       \<and> (length b > MAX_OBJECT_SIZE_BYTES client \<longrightarrow>
            (\<forall>item. create_input client fn_args kwargs i = Inr item \<longrightarrow>
               (\<exists>blob_id. blob_upload client b = Inr blob_id
                  \<and> args_blob_id (input item) = Some blob_id) \<and> args (input item) = None)
            \<and> (\<forall>blob_id. blob_upload client b = Inr blob_id \<longrightarrow>
                 (\<exists>item. create_input client fn_args kwargs i = Inr item)))
       \<and> (length b \<le> MAX_OBJECT_SIZE_BYTES client \<longrightarrow>
            (\<exists>item. create_input client fn_args kwargs i = Inr item
               \<and> args (input item) = Some b \<and> args_blob_id (input item) = None))"
  using assms
  by (auto simp: create_input_def split: sum.splits)

theorem create_input_payload_witness:
  "(\<exists>item. create_input demo_client (PyStr ''abcdef'') PyNone None = Inr item
       \<and> args_blob_id (input item) = Some ''bl-Sabcdef'' \<and> args (input item) = None)
   \<and> (\<exists>item. create_input demo_client (PyStr ''abc'') PyNone (Some 7) = Inr item
       \<and> args (input item) = Some ''Sabc'' \<and> args_blob_id (input item) = None)"
proof -
  have s1: "serialize demo_client (PyStr ''abcdef'', PyNone) = Inr ''Sabcdef''"
    and s2: "serialize demo_client (PyStr ''abc'', PyNone) = Inr ''Sabc''"
    by (simp_all add: demo_client_def demo_serialize_def)
  have u: "blob_upload demo_client ''Sabcdef'' = Inr ''bl-Sabcdef''"
    by (simp add: demo_client_def)
  have big: "length ''Sabcdef'' > MAX_OBJECT_SIZE_BYTES demo_client"
    and small: "length ''Sabc'' \<le> MAX_OBJECT_SIZE_BYTES demo_client"
    by (simp_all add: demo_client_def)
  from create_input_payload [OF s1, of None] big u
  obtain item where i: "create_input demo_client (PyStr ''abcdef'') PyNone None = Inr item"
    by blast
  with create_input_payload [OF s1, of None] big u
  have "args_blob_id (input item) = Some ''bl-Sabcdef'' \<and> args (input item) = None"
    by auto
  with i have a: "\<exists>item. create_input demo_client (PyStr ''abcdef'') PyNone None = Inr item
       \<and> args_blob_id (input item) = Some ''bl-Sabcdef'' \<and> args (input item) = None"
    by blast
  from create_input_payload [OF s2, of "Some 7"] small
  have b: "\<exists>item. create_input demo_client (PyStr ''abc'') PyNone (Some 7) = Inr item
       \<and> args (input item) = Some ''Sabc'' \<and> args_blob_id (input item) = None"
    by blast
  from a b show ?thesis by blast
qed

subsection \<open>Polling for the outputs of one call\<close>

lemma polls_nonempty: "polls (get_items_loop fl c tmo t0 bt script) \<noteq> []"
  by (induction script arbitrary: bt) (auto simp: Let_def split: sum.splits option.splits if_splits)

lemma polls_first: "polls (get_items_loop fl c tmo t0 bt script) ! 0 = get_outputs_call c bt"
  by (cases script) (auto simp: Let_def split: sum.splits option.splits)

lemma polls_later:
  "Suc k < length (polls (get_items_loop fl c tmo t0 bt script)) \<Longrightarrow>
   polls (get_items_loop fl c tmo t0 bt script) ! Suc k =
     get_outputs_call c
       (case tmo of None \<Rightarrow> bt
        | Some t \<Rightarrow> min 60 (float_sub fl (float_add fl t0 t) (snd (script ! k))))"
proof (induction script arbitrary: bt k)
  case Nil
  then show ?case by simp
next
  case (Cons a script)
  obtain response now where a: "a = (response, now)" by (cases a)
  show ?case
  proof (cases k)
    case 0
    then show ?thesis using Cons.prems
      by (auto simp: a Let_def polls_first split: sum.splits option.splits if_splits)
  next
    case (Suc j)
    then show ?thesis using Cons.prems Cons.IH [where k = j]
      by (auto simp: a Let_def split: sum.splits option.splits if_splits)
  qed
qed

lemma get_items_loop_found:
  assumes "\<forall>p\<in>set pre. fst p = Inr []
             \<and> (\<forall>t. tmo = Some t \<longrightarrow> \<not> float_sub fl (float_add fl t0 t) (snd p) < 0)"
    and "outs \<noteq> []"
  shows "ending (get_items_loop fl c tmo t0 bt (pre @ (Inr outs, now) # post)) = Returned
       \<and> items (get_items_loop fl c tmo t0 bt (pre @ (Inr outs, now) # post)) = map result outs
       \<and> length (polls (get_items_loop fl c tmo t0 bt (pre @ (Inr outs, now) # post))) = Suc (length pre)
       \<and> rest (get_items_loop fl c tmo t0 bt (pre @ (Inr outs, now) # post)) = post"
  using assms
  by (induction pre arbitrary: bt) (auto simp: Let_def split: option.splits)

lemma get_items_loop_elapsed:
  assumes "\<forall>p\<in>set pre. fst p = Inr [] \<and> \<not> float_sub fl (float_add fl t0 t) (snd p) < 0"
    and "float_sub fl (float_add fl t0 t) now < 0"
  shows "ending (get_items_loop fl c (Some t) t0 bt (pre @ (Inr [], now) # post)) = Returned
       \<and> items (get_items_loop fl c (Some t) t0 bt (pre @ (Inr [], now) # post)) = []
       \<and> length (polls (get_items_loop fl c (Some t) t0 bt (pre @ (Inr [], now) # post))) = Suc (length pre)"
  using assms
  by (induction pre arbitrary: bt) (auto simp: Let_def split: option.splits)

lemma get_items_loop_returned_empty:
  "ending (get_items_loop fl c tmo t0 bt script) = Returned \<Longrightarrow>
   items (get_items_loop fl c tmo t0 bt script) = [] \<Longrightarrow>
   \<exists>t. tmo = Some t
     \<and> (\<exists>k<length script. float_sub fl (float_add fl t0 t) (snd (script ! k)) < 0)"
proof (induction script arbitrary: bt)
  case Nil
  then show ?case by simp
next
  case (Cons a script)
  obtain response now where a: "a = (response, now)" by (cases a)
  show ?case
    using Cons.prems Cons.IH
    by (fastforce simp: a Let_def split: sum.splits option.splits if_splits)
qed

lemma get_items_loop_raises:
  "ending (get_items_loop fl c tmo t0 bt script) = Raised e \<Longrightarrow>
   \<exists>exc. e = Propagated exc \<and> (\<exists>p\<in>set script. fst p = Inl exc)"
proof (induction script arbitrary: bt)
  case Nil
  then show ?case by simp
next
  case (Cons a script)
  obtain response now where a: "a = (response, now)" by (cases a)
  show ?case
    using Cons.prems Cons.IH
    by (fastforce simp: a Let_def split: sum.splits option.splits if_splits)
qed

text \<open>
  C3, as the code has it. Every poll of \<^verbatim>\<open>get_items(timeout)\<close> is a call of
  FunctionGetOutputs for the call id with \<open>return_empty_on_timeout = True\<close> and the timeout
  \<open>min 60 remaining\<close>: the remaining time is \<open>timeout\<close> before the first poll and afterwards
  \<^verbatim>\<open>t0 + timeout - time.time()\<close> as the floats give it (60 when there is no timeout). While
  the responses are empty and that remaining time is not negative, it polls again; the
  first response with an output ends the sequence with exactly the results of that
  response, and a negative remaining time after an empty response ends it empty. With
  \<open>timeout = 0\<close> at least one poll is made, and exactly one when the first response has an
  output or the remaining time computed after it is negative (the clock has passed \<open>t0\<close>).
\<close>

theorem get_items_polling:
  fixes script :: "'o poll_script"
  assumes run: "run = (get_items fl call_id timeout t0 script :: 'o get_items_run)"
  shows "polls run \<noteq> []
       \<and> (\<forall>k<length (polls run).
            rpc_method (polls run ! k) = FunctionGetOutputs
            \<and> rpc_request (polls run ! k) =
                FunctionGetOutputsRequest call_id
                  (case timeout of
                     None \<Rightarrow> 60
                   | Some t \<Rightarrow>
                       min 60 (if k = 0 then t
                               else float_sub fl (float_add fl t0 t) (snd (script ! (k - 1)))))
                  True)
       \<and> (\<forall>pre outs now post.
            script = pre @ (Inr outs, now) # post \<and> outs \<noteq> []
            \<and> (\<forall>p\<in>set pre. fst p = Inr []
                  \<and> (\<forall>t. timeout = Some t \<longrightarrow> \<not> float_sub fl (float_add fl t0 t) (snd p) < 0))
            \<longrightarrow> ending run = Returned \<and> items run = map result outs
                \<and> length (polls run) = Suc (length pre))
       \<and> (\<forall>pre t now post.
            timeout = Some t \<and> script = pre @ (Inr [], now) # post
            \<and> float_sub fl (float_add fl t0 t) now < 0
            \<and> (\<forall>p\<in>set pre. fst p = Inr [] \<and> \<not> float_sub fl (float_add fl t0 t) (snd p) < 0)
            \<longrightarrow> ending run = Returned \<and> items run = [] \<and> length (polls run) = Suc (length pre))
       \<and> (\<forall>response now post.
            timeout = Some 0 \<and> script = (response, now) # post
            \<and> (response \<noteq> Inr [] \<or> float_sub fl (float_add fl t0 0) now < 0)
            \<longrightarrow> length (polls run) = 1)"
proof (intro conjI)
  show "polls run \<noteq> []"
    by (simp add: run get_items_def polls_nonempty)
next
  show "\<forall>k<length (polls run).
            rpc_method (polls run ! k) = FunctionGetOutputs
            \<and> rpc_request (polls run ! k) =
                FunctionGetOutputsRequest call_id
                  (case timeout of
                     None \<Rightarrow> 60
                   | Some t \<Rightarrow>
                       min 60 (if k = 0 then t
                               else float_sub fl (float_add fl t0 t) (snd (script ! (k - 1)))))
                  True"
  proof (intro allI impI)
    fix k
    assume k: "k < length (polls run)"
    show "rpc_method (polls run ! k) = FunctionGetOutputs
            \<and> rpc_request (polls run ! k) =
                FunctionGetOutputsRequest call_id
                  (case timeout of
                     None \<Rightarrow> 60
                   | Some t \<Rightarrow>
                       min 60 (if k = 0 then t
                               else float_sub fl (float_add fl t0 t) (snd (script ! (k - 1)))))
                  True"
    proof (cases k)
      case 0
      then show ?thesis
        by (simp add: run get_items_def polls_first get_outputs_call_def split: option.splits)
    next
      case (Suc j)
      then show ?thesis
        using k polls_later [where k = j and fl = fl and c = call_id and tmo = timeout
            and ?t0.0 = t0 and script = script]
        by (simp add: run get_items_def get_outputs_call_def split: option.splits)
    qed
  qed
next
  show "\<forall>pre outs now post.
            script = pre @ (Inr outs, now) # post \<and> outs \<noteq> []
            \<and> (\<forall>p\<in>set pre. fst p = Inr []
                  \<and> (\<forall>t. timeout = Some t \<longrightarrow> \<not> float_sub fl (float_add fl t0 t) (snd p) < 0))
            \<longrightarrow> ending run = Returned \<and> items run = map result outs
                \<and> length (polls run) = Suc (length pre)"
  proof (intro allI impI, elim conjE)
    fix pre outs now post
    assume "script = pre @ (Inr outs, now) # post" and "outs \<noteq> []"
      and "\<forall>p\<in>set pre. fst p = Inr []
             \<and> (\<forall>t. timeout = Some t \<longrightarrow> \<not> float_sub fl (float_add fl t0 t) (snd p) < 0)"
    then show "ending run = Returned \<and> items run = map result outs
                \<and> length (polls run) = Suc (length pre)"
      using get_items_loop_found [where pre = pre and tmo = timeout and ?t0.0 = t0
          and outs = outs and c = call_id and now = now and post = post and fl = fl]
      by (simp add: run get_items_def)
  qed
next
  show "\<forall>pre t now post.
            timeout = Some t \<and> script = pre @ (Inr [], now) # post
            \<and> float_sub fl (float_add fl t0 t) now < 0
            \<and> (\<forall>p\<in>set pre. fst p = Inr [] \<and> \<not> float_sub fl (float_add fl t0 t) (snd p) < 0)
            \<longrightarrow> ending run = Returned \<and> items run = [] \<and> length (polls run) = Suc (length pre)"
  proof (intro allI impI, elim conjE)
    fix pre t now post
    assume "timeout = Some t" and "script = pre @ (Inr [], now) # post"
      and "float_sub fl (float_add fl t0 t) now < 0"
      and "\<forall>p\<in>set pre. fst p = Inr [] \<and> \<not> float_sub fl (float_add fl t0 t) (snd p) < 0"
    then show "ending run = Returned \<and> items run = [] \<and> length (polls run) = Suc (length pre)"
      using get_items_loop_elapsed [where pre = pre and t = t and ?t0.0 = t0
          and c = call_id and now = now and post = post and fl = fl]
      by (simp add: run get_items_def)
  qed
next
  show "\<forall>response now post.
            timeout = Some 0 \<and> script = (response, now) # post
            \<and> (response \<noteq> Inr [] \<or> float_sub fl (float_add fl t0 0) now < 0)
            \<longrightarrow> length (polls run) = 1"
    by (auto simp: run get_items_def Let_def split: sum.splits)
qed

theorem get_items_polling_witness:
  "ending (get_items exact_arithmetic ''fc-1'' (Some 5) 100
      [(Inr [], 102), (Inr [output_item 0 (success_result ''Sa'')], 103), (Inr [], 104)]
      :: pyobj get_items_run) = Returned
   \<and> items (get_items exact_arithmetic ''fc-1'' (Some 5) 100
      [(Inr [], 102), (Inr [output_item 0 (success_result ''Sa'')], 103), (Inr [], 104)]
      :: pyobj get_items_run) = [success_result ''Sa'']
   \<and> map rpc_request (polls (get_items exact_arithmetic ''fc-1'' (Some 5) 100
      [(Inr [], 102), (Inr [output_item 0 (success_result ''Sa'')], 103), (Inr [], 104)]
      :: pyobj get_items_run)) =
       [FunctionGetOutputsRequest ''fc-1'' 5 True, FunctionGetOutputsRequest ''fc-1'' 3 True]
   \<and> ending (get_items exact_arithmetic ''fc-1'' (Some 0) 100 [(Inr [], 101)]
        :: pyobj get_items_run) = Returned
   \<and> items (get_items exact_arithmetic ''fc-1'' (Some 0) 100 [(Inr [], 101)]
        :: pyobj get_items_run) = []
   \<and> length (polls (get_items exact_arithmetic ''fc-1'' (Some 0) 100 [(Inr [], 101)]
        :: pyobj get_items_run)) = 1"
proof -
  let ?s = "[(Inr [], 102), (Inr [output_item 0 (success_result ''Sa'')], 103), (Inr [], 104)]
              :: pyobj poll_script"
  let ?r = "get_items exact_arithmetic ''fc-1'' (Some 5) 100 ?s :: pyobj get_items_run"
  note a = get_items_polling [of ?r exact_arithmetic "''fc-1''" "Some 5" 100 ?s, OF refl]
  have s: "?s = [(Inr [], 102)] @ (Inr [output_item 0 (success_result ''Sa'')], 103) # [(Inr [], 104)]"
    by simp
  have h: "\<forall>p\<in>set [(Inr [], 102 :: real)]. fst p = (Inr [] :: pyobj + FunctionGetOutputsItem list)
      \<and> (\<forall>t. Some 5 = Some t \<longrightarrow>
            \<not> float_sub exact_arithmetic (float_add exact_arithmetic 100 t) (snd p) < 0)"
    by (simp add: exact_arithmetic_def)
  from a s h have a1: "ending ?r = Returned \<and> items ?r = map result [output_item 0 (success_result ''Sa'')]
      \<and> length (polls ?r) = 2"
    by (elim conjE allE [where x = "[(Inr [], 102)]"]) fastforce
  from a have a2: "rpc_request (polls ?r ! 0) = FunctionGetOutputsRequest ''fc-1'' 5 True"
    "rpc_request (polls ?r ! 1) = FunctionGetOutputsRequest ''fc-1'' 3 True"
    using a1 by (auto simp: exact_arithmetic_def)
  have a3: "map rpc_request (polls ?r) =
       [FunctionGetOutputsRequest ''fc-1'' 5 True, FunctionGetOutputsRequest ''fc-1'' 3 True]"
    using a1 a2 by (intro nth_equalityI) (auto simp: less_Suc_eq numeral_2_eq_2)
  let ?z = "get_items exact_arithmetic ''fc-1'' (Some 0) 100 [(Inr [], 101)] :: pyobj get_items_run"
  note b = get_items_polling [of ?z exact_arithmetic "''fc-1''" "Some 0" 100 "[(Inr [], 101)]", OF refl]
  have e: "float_sub exact_arithmetic (float_add exact_arithmetic 100 0) 101 < 0"
    by (simp add: exact_arithmetic_def)
  from b e have b1: "ending ?z = Returned \<and> items ?z = [] \<and> length (polls ?z) = 1"
    by (elim conjE allE [where x = "[]"]) fastforce
  from a1 a3 b1 show ?thesis by (simp add: output_item_def)
qed

text \<open>
  C3 as the spec words it (exactly one poll) fails: with \<open>timeout = 0\<close>, an empty first
  response and a clock that still reads \<open>t0\<close> after it, the remaining time is 0, which is
  not negative, and a second poll is made.
\<close>

theorem get_items_timeout_zero_polls_twice:
  "length (polls (get_items exact_arithmetic ''fc-1'' (Some 0) 100 [(Inr [], 100), (Inr [], 101)]
     :: pyobj get_items_run)) = 2"
  by (simp add: get_items_def exact_arithmetic_def)

subsection \<open>poll_function\<close>

lemma process_result_raises:
  "process_result client r = Inl e \<Longrightarrow>
   (\<exists>msg. e = ExecutionError msg) \<or> (\<exists>msg. e = RemoteError msg) \<or> (\<exists>exc. e = Propagated exc)"
  by (auto simp: process_result_def split: sum.splits if_splits)

text \<open>
  C5, as the code has it. When \<^verbatim>\<open>get_items(timeout)\<close> returns without a result, which
  happens only after a negative remaining time, \<^verbatim>\<open>poll_function(timeout)\<close> raises
  TimeoutError; when it returns results, \<^verbatim>\<open>poll_function\<close> returns what the decoder makes
  of the first one, or raises what the decoder raises. So a TimeoutError leaves
  \<^verbatim>\<open>poll_function\<close> either because there was no result, or because an exception that
  passes through it (from the decoder's \<^verbatim>\<open>raise exc\<close>, the blob download, the codec or the
  call of FunctionGetOutputs) is itself an instance of TimeoutError.
\<close>

theorem poll_function_timeout:
  fixes script :: "'o poll_script" and client :: "'o client"
  assumes run: "run = (get_items fl call_id timeout t0 script :: 'o get_items_run)"
  shows "(ending run = Returned \<and> items run = [] \<longrightarrow>
            poll_function fl client call_id timeout t0 script = Some (Inl TimeoutError)
            \<and> (\<exists>t. timeout = Some t
                 \<and> (\<exists>k<length script. float_sub fl (float_add fl t0 t) (snd (script ! k)) < 0)))
       \<and> (ending run = Returned \<and> items run \<noteq> [] \<longrightarrow>
            poll_function fl client call_id timeout t0 script
              = Some (process_result client (hd (items run))))
       \<and> (\<forall>e. poll_function fl client call_id timeout t0 script = Some (Inl e)
               \<and> is_timeout client e \<longrightarrow>
            (ending run = Returned \<and> items run = [] \<and> e = TimeoutError)
            \<or> (\<exists>exc. e = Propagated exc \<and> is_TimeoutError client exc))"
proof -
  have c1: "ending run = Returned \<and> items run = [] \<longrightarrow>
            poll_function fl client call_id timeout t0 script = Some (Inl TimeoutError)
            \<and> (\<exists>t. timeout = Some t
                 \<and> (\<exists>k<length script. float_sub fl (float_add fl t0 t) (snd (script ! k)) < 0))"
    using get_items_loop_returned_empty [where fl = fl and c = call_id and tmo = timeout
        and ?t0.0 = t0 and script = script]
    by (auto simp: run poll_function_def Let_def get_items_def)
  have c2: "ending run = Returned \<and> items run \<noteq> [] \<longrightarrow>
            poll_function fl client call_id timeout t0 script
              = Some (process_result client (hd (items run)))"
    by (auto simp: run poll_function_def Let_def hd_conv_nth)
  have c3: "\<forall>e. poll_function fl client call_id timeout t0 script = Some (Inl e)
               \<and> is_timeout client e \<longrightarrow>
            (ending run = Returned \<and> items run = [] \<and> e = TimeoutError)
            \<or> (\<exists>exc. e = Propagated exc \<and> is_TimeoutError client exc)"
  proof (intro allI impI)
    fix e
    assume a: "poll_function fl client call_id timeout t0 script = Some (Inl e) \<and> is_timeout client e"
    show "(ending run = Returned \<and> items run = [] \<and> e = TimeoutError)
            \<or> (\<exists>exc. e = Propagated exc \<and> is_TimeoutError client exc)"
    proof (cases "ending run")
      case Returned
      show ?thesis
      proof (cases "items run = []")
        case True
        then show ?thesis using a Returned by (auto simp: run poll_function_def Let_def)
      next
        case False
        with a Returned have "process_result client (items run ! 0) = Inl e"
          by (auto simp: run poll_function_def Let_def)
        from process_result_raises [OF this] a show ?thesis by auto
      qed
    next
      case (Raised x)
      with a have ex: "e = x" by (auto simp: run poll_function_def Let_def)
      from Raised have "ending (get_items_loop fl call_id timeout t0
          (case timeout of None \<Rightarrow> 60 | Some t \<Rightarrow> min 60 t) script) = Raised x"
        by (simp add: run get_items_def)
      from get_items_loop_raises [OF this] obtain exc where "x = Propagated exc" by blast
      with ex a show ?thesis by auto
    next
      case Blocked
      with a show ?thesis by (auto simp: run poll_function_def Let_def)
    qed
  qed
  from c1 c2 c3 show ?thesis by blast
qed

theorem poll_function_timeout_witness:
  "poll_function exact_arithmetic demo_client ''fc-1'' (Some 0) 100 [(Inr [], 101)]
     = Some (Inl TimeoutError)
   \<and> poll_function exact_arithmetic demo_client ''fc-1'' (Some 5) 100
       [(Inr [], 102), (Inr [output_item 0 (success_result ''Sa'')], 103)] = Some (Inr (PyStr ''a''))"
proof -
  let ?z = "get_items exact_arithmetic ''fc-1'' (Some 0) 100 [(Inr [], 101)] :: pyobj get_items_run"
  have z: "ending ?z = Returned \<and> items ?z = []"
    by (simp add: get_items_def exact_arithmetic_def)
  from poll_function_timeout [of ?z exact_arithmetic "''fc-1''" "Some 0" 100 "[(Inr [], 101)]"
      demo_client, OF refl] z
  have a: "poll_function exact_arithmetic demo_client ''fc-1'' (Some 0) 100 [(Inr [], 101)]
             = Some (Inl TimeoutError)"
    by blast
  let ?s = "[(Inr [], 102), (Inr [output_item 0 (success_result ''Sa'')], 103)] :: pyobj poll_script"
  let ?r = "get_items exact_arithmetic ''fc-1'' (Some 5) 100 ?s :: pyobj get_items_run"
  have r: "ending ?r = Returned \<and> items ?r = [success_result ''Sa'']"
    by (simp add: get_items_def output_item_def exact_arithmetic_def)
  have p: "process_result demo_client (success_result ''Sa'') = Inr (PyStr ''a'')"
    by (simp add: process_result_def result_data_def success_result_def demo_client_def
        demo_deserialize_def)
  from poll_function_timeout [of ?r exact_arithmetic "''fc-1''" "Some 5" 100 ?s demo_client, OF refl] r p
  have b: "poll_function exact_arithmetic demo_client ''fc-1'' (Some 5) 100 ?s
             = Some (Inr (PyStr ''a''))"
    by simp
  from a b show ?thesis by simp
qed

text \<open>
  C5 as the spec words it (a Timeout error only when there is no result) fails: a failed
  result whose payload is a remote \<^verbatim>\<open>TimeoutError\<close> is raised again by the decoder, and
  \<^verbatim>\<open>poll_function\<close> ends with a TimeoutError although \<^verbatim>\<open>get_items\<close> yielded a result.
\<close>

theorem poll_function_remote_timeout:
  "items (get_items exact_arithmetic ''fc-1'' (Some 5) 100
      [(Inr [output_item 0 (failure_result (Data ''Tslow''))], 101)] :: pyobj get_items_run)
     = [failure_result (Data ''Tslow'')]
   \<and> poll_function exact_arithmetic demo_client ''fc-1'' (Some 5) 100
       [(Inr [output_item 0 (failure_result (Data ''Tslow''))], 101)]
       = Some (Inl (Propagated (PyExc ''TimeoutError'' ''slow'')))
   \<and> is_timeout demo_client (Propagated (PyExc ''TimeoutError'' ''slow''))"
  by (simp add: poll_function_def get_items_def output_item_def process_result_def
      result_data_def failure_result_def demo_client_def demo_deserialize_def
      demo_is_exception_def demo_is_TimeoutError_def)

subsection \<open>run_generator\<close>

lemma run_generator_Nil: "run_generator fl client c t0 [] = ([], Blocked)"
  by (subst run_generator.simps) (simp add: get_items_def)

lemma run_generator_empty:
  "run_generator fl client c t0 ((Inr [], now) # s) = run_generator fl client c t0 s"
  by (subst run_generator.simps, subst (2) run_generator.simps)
     (simp add: get_items_def Let_def split: outcome.splits)

lemma run_generator_outputs:
  "outs \<noteq> [] \<Longrightarrow> run_generator fl client c t0 ((Inr outs, now) # s) =
     (case run_generator_items client (map result outs) of
        (vs, Completed) \<Rightarrow> (vs, Returned)
      | (vs, Failed e) \<Rightarrow> (vs, Raised e)
      | (vs, Exhausted) \<Rightarrow> (let (ws, out) = run_generator fl client c t0 s in (vs @ ws, out)))"
  by (subst run_generator.simps) (simp add: get_items_def Let_def)

lemma run_generator_items_completed:
  assumes "\<forall>r\<in>set pre. gen_status r \<noteq> GENERATOR_STATUS_COMPLETE \<and> (\<exists>v. process_result client r = Inr v)"
    and "gen_status c = GENERATOR_STATUS_COMPLETE"
  shows "run_generator_items client (pre @ c # post) = (map (projr \<circ> process_result client) pre, Completed)"
  using assms by (induction pre) auto

lemma run_generator_items_exhausted:
  assumes "\<forall>r\<in>set pre. gen_status r \<noteq> GENERATOR_STATUS_COMPLETE \<and> (\<exists>v. process_result client r = Inr v)"
  shows "run_generator_items client pre = (map (projr \<circ> process_result client) pre, Exhausted)"
  using assms by (induction pre) auto

lemma arrivals_Cons: "arrivals ((Inr outs, now) # script) = map result outs @ arrivals script"
  by (simp add: arrivals_def)

lemma run_generator_blocked:
  assumes "\<forall>p\<in>set script. \<exists>outputs. fst p = Inr outputs"
    and "\<forall>r\<in>set (arrivals script). gen_status r \<noteq> GENERATOR_STATUS_COMPLETE
           \<and> (\<exists>v. process_result client r = Inr v)"
  shows "run_generator fl client c t0 script = (map (projr \<circ> process_result client) (arrivals script), Blocked)"
  using assms
proof (induction script)
  case Nil
  then show ?case by (simp add: run_generator_Nil arrivals_def)
next
  case (Cons a script)
  obtain outs now where a: "a = (Inr outs, now)" using Cons.prems(1) by (cases a) auto
  note arr = arrivals_Cons [of outs now script]
  show ?case
  proof (cases "outs = []")
    case True
    then show ?thesis using Cons arr by (simp add: a run_generator_empty)
  next
    case False
    have "run_generator_items client (map result outs)
            = (map (projr \<circ> process_result client) (map result outs), Exhausted)"
      using Cons.prems(2) arr by (intro run_generator_items_exhausted) (auto simp: a)
    then show ?thesis using Cons arr False by (simp add: a run_generator_outputs)
  qed
qed

lemma run_generator_completed:
  assumes "\<forall>p\<in>set script. \<exists>outputs. fst p = Inr outputs"
    and "\<forall>r\<in>set pre. gen_status r \<noteq> GENERATOR_STATUS_COMPLETE \<and> (\<exists>v. process_result client r = Inr v)"
    and "gen_status c = GENERATOR_STATUS_COMPLETE"
    and "arrivals script = pre @ c # post"
  shows "run_generator fl client cid t0 script = (map (projr \<circ> process_result client) pre, Returned)"
  using assms
proof (induction script arbitrary: pre)
  case Nil
  then show ?case by (simp add: arrivals_def)
next
  case (Cons a script)
  obtain outs now where a: "a = (Inr outs, now)" using Cons.prems(1) by (cases a) auto
  note arr = arrivals_Cons [of outs now script]
  show ?case
  proof (cases "outs = []")
    case True
    then show ?thesis using Cons arr by (simp add: a run_generator_empty)
  next
    case False
    from Cons.prems(4) arr have eq: "map result outs @ arrivals script = pre @ c # post"
      by (simp add: a)
    then consider (here) zs where "map result outs = pre @ c # zs"
      | (later) ys where "pre = map result outs @ ys" "arrivals script = ys @ c # post"
      by (auto simp: append_eq_append_conv2 append_eq_Cons_conv Cons_eq_append_conv)
    then show ?thesis
    proof cases
      case here
      then show ?thesis
        using run_generator_items_completed [OF Cons.prems(2,3), of zs] False
        by (simp add: a run_generator_outputs)
    next
      case later
      have ex: "run_generator_items client (map result outs)
                  = (map (projr \<circ> process_result client) (map result outs), Exhausted)"
        using Cons.prems(2) later(1) by (intro run_generator_items_exhausted) auto
      have "run_generator fl client cid t0 script = (map (projr \<circ> process_result client) ys, Returned)"
        using Cons.prems later by (intro Cons.IH) auto
      then show ?thesis using ex False later(1)
        by (simp add: a run_generator_outputs)
    qed
  qed
qed

lemma map_Inr_projr:
  "\<forall>r\<in>set pre. \<exists>v. f r = Inr v \<Longrightarrow> map Inr (map (projr \<circ> f) pre) = map f pre"
  by (induction pre) auto

text \<open>
  C7. Let the results arrive without a transport error, and let \<open>pre\<close> be results that are
  not COMPLETE and that the decoder accepts. When the arrivals are \<open>pre\<close>, then a COMPLETE
  result \<open>c\<close>, then anything, \<^verbatim>\<open>run_generator\<close> returns after yielding exactly the decoded
  \<open>pre\<close>, in the order of arrival: \<open>c\<close> ends the stream and is not yielded. When the arrivals
  so far are \<open>pre\<close> alone, it has yielded the decoded \<open>pre\<close> and is still polling.
\<close>

theorem run_generator_stream:
  fixes script :: "'o poll_script"
  assumes "\<forall>p\<in>set script. \<exists>outputs. fst p = Inr outputs"
    and "\<forall>r\<in>set pre. gen_status r \<noteq> GENERATOR_STATUS_COMPLETE \<and> (\<exists>v. process_result client r = Inr v)"
  shows "(\<forall>c post. arrivals script = pre @ c # post \<and> gen_status c = GENERATOR_STATUS_COMPLETE \<longrightarrow>
            (\<exists>vs. run_generator fl client call_id t0 script = (vs, Returned)
                 \<and> map Inr vs = map (process_result client) pre))
       \<and> (arrivals script = pre \<longrightarrow>
            (\<exists>vs. run_generator fl client call_id t0 script = (vs, Blocked)
                 \<and> map Inr vs = map (process_result client) pre))"
proof (intro conjI allI impI)
  fix c post
  assume "arrivals script = pre @ c # post \<and> gen_status c = GENERATOR_STATUS_COMPLETE"
  then have "run_generator fl client call_id t0 script
               = (map (projr \<circ> process_result client) pre, Returned)"
    using assms by (intro run_generator_completed [where c = c and post = post]) auto
  then show "\<exists>vs. run_generator fl client call_id t0 script = (vs, Returned)
                 \<and> map Inr vs = map (process_result client) pre"
    using assms(2) map_Inr_projr [of pre "process_result client"] by auto
next
  assume "arrivals script = pre"
  then have "run_generator fl client call_id t0 script
               = (map (projr \<circ> process_result client) pre, Blocked)"
    using assms run_generator_blocked [where script = script and client = client] by auto
  then show "\<exists>vs. run_generator fl client call_id t0 script = (vs, Blocked)
                 \<and> map Inr vs = map (process_result client) pre"
    using assms(2) map_Inr_projr [of pre "process_result client"] by auto
qed

theorem run_generator_stream_witness:
  "run_generator exact_arithmetic demo_client ''fc-1'' 0
     [(Inr [], 1),
      (Inr [output_item 0 (success_result ''Sa''), output_item 0 (success_result ''Sb'')], 2),
      (Inr [output_item 0 complete_result, output_item 0 (success_result ''Sz'')], 3)]
   = ([PyStr ''a'', PyStr ''b''], Returned)"
proof -
  let ?s = "[(Inr [], 1),
      (Inr [output_item 0 (success_result ''Sa''), output_item 0 (success_result ''Sb'')], 2),
      (Inr [output_item 0 complete_result, output_item 0 (success_result ''Sz'')], 3)]
      :: pyobj poll_script"
  let ?pre = "[success_result ''Sa'', success_result ''Sb'']"
  have p: "process_result demo_client (success_result ''Sa'') = Inr (PyStr ''a'')"
    "process_result demo_client (success_result ''Sb'') = Inr (PyStr ''b'')"
    by (simp_all add: process_result_def result_data_def success_result_def demo_client_def
        demo_deserialize_def)
  have h1: "\<forall>p\<in>set ?s. \<exists>outputs. fst p = Inr outputs" by simp
  have h2: "\<forall>r\<in>set ?pre. gen_status r \<noteq> GENERATOR_STATUS_COMPLETE
              \<and> (\<exists>v. process_result demo_client r = Inr v)"
    using p by (simp add: success_result_def)
  have arr: "arrivals ?s = ?pre @ complete_result # [success_result ''Sz'']
               \<and> gen_status complete_result = GENERATOR_STATUS_COMPLETE"
    by (simp add: arrivals_def output_item_def complete_result_def)
  from run_generator_stream [OF h1 h2, where call_id = "''fc-1''" and ?t0.0 = 0
      and fl = exact_arithmetic] arr
  obtain vs where vs: "run_generator exact_arithmetic demo_client ''fc-1'' 0 ?s = (vs, Returned)"
    and m: "map Inr vs = map (process_result demo_client) ?pre"
    by blast
  from m p have "vs = [PyStr ''a'', PyStr ''b'']" by auto
  with vs show ?thesis by simp
qed

subsection \<open>The retry policy of the calls\<close>

lemma pump_batches_calls:
  "c \<in> set (fst (pump_batches client function_id call_id batches finished)) \<Longrightarrow>
   rpc_method c = FunctionPutInputs \<and> rpc_kwargs c = put_inputs_kwargs
   \<and> (\<exists>batch\<in>set batches. rpc_request c = FunctionPutInputsRequest function_id batch call_id)"
  by (induction batches) (auto simp: Let_def split: sum.splits prod.splits)

lemma pump_batches_all:
  "snd (pump_batches client function_id call_id batches finished) = Returned \<Longrightarrow>
   map rpc_request (fst (pump_batches client function_id call_id batches finished))
     = map (\<lambda>batch. FunctionPutInputsRequest function_id batch call_id) batches \<and> finished"
  by (induction batches) (auto simp: Let_def split: sum.splits prod.splits if_splits)

text \<open>
  C6. Every call of FunctionPutInputs that \<^verbatim>\<open>Invocation.create\<close> and the pump task make
  through \<^verbatim>\<open>retry_transient_errors\<close> passes \<^verbatim>\<open>max_retries=None\<close> (no limit) and
  RESOURCE_EXHAUSTED among \<^verbatim>\<open>additional_status_codes\<close>; every call of FunctionMap, in
  \<^verbatim>\<open>Invocation.create\<close> and at the start of \<^verbatim>\<open>map_invocation\<close>, passes no keyword: the
  default policy. A \<^verbatim>\<open>create\<close> that returns has made one FunctionMap call and one
  FunctionPutInputs call with the single encoded input; a pump task that returns has made
  one FunctionPutInputs call for each batch.
\<close>

theorem put_inputs_retry_policy:
  "(\<forall>c\<in>set (snd (create client function_id fn_args kwargs)).
      (rpc_method c = FunctionPutInputs \<longrightarrow>
         max_retries (rpc_kwargs c) = Some Unlimited
         \<and> (\<exists>codes. additional_status_codes (rpc_kwargs c) = Some codes \<and> RESOURCE_EXHAUSTED \<in> set codes))
      \<and> (rpc_method c = FunctionMap \<longrightarrow> rpc_kwargs c = default_kwargs))
   \<and> (\<forall>invocation calls. create client function_id fn_args kwargs = (Inr invocation, calls) \<longrightarrow>
        (\<exists>item. create_input client fn_args kwargs None = Inr item
           \<and> map rpc_method calls = [FunctionMap, FunctionPutInputs]
           \<and> map rpc_request calls =
               [FunctionMapRequest function_id,
                FunctionPutInputsRequest function_id [item] (function_call_id invocation)]))
   \<and> (\<forall>c\<in>set (fst (pump_batches client function_id call_id batches finished)).
        rpc_method c = FunctionPutInputs
        \<and> max_retries (rpc_kwargs c) = Some Unlimited
        \<and> (\<exists>codes. additional_status_codes (rpc_kwargs c) = Some codes \<and> RESOURCE_EXHAUSTED \<in> set codes))
   \<and> (snd (pump_batches client function_id call_id batches finished) = Returned \<longrightarrow>
        map rpc_request (fst (pump_batches client function_id call_id batches finished))
          = map (\<lambda>batch. FunctionPutInputsRequest function_id batch call_id) batches)
   \<and> (\<forall>c\<in>set (snd (map_invocation_start client function_id)).
        rpc_method c = FunctionMap \<and> rpc_kwargs c = default_kwargs)"
proof (intro conjI)
  show "\<forall>c\<in>set (snd (create client function_id fn_args kwargs)).
      (rpc_method c = FunctionPutInputs \<longrightarrow>
         max_retries (rpc_kwargs c) = Some Unlimited
         \<and> (\<exists>codes. additional_status_codes (rpc_kwargs c) = Some codes \<and> RESOURCE_EXHAUSTED \<in> set codes))
      \<and> (rpc_method c = FunctionMap \<longrightarrow> rpc_kwargs c = default_kwargs)"
    by (auto simp: create_def Let_def put_inputs_kwargs_def split: sum.splits)
next
  show "\<forall>invocation calls. create client function_id fn_args kwargs = (Inr invocation, calls) \<longrightarrow>
        (\<exists>item. create_input client fn_args kwargs None = Inr item
           \<and> map rpc_method calls = [FunctionMap, FunctionPutInputs]
           \<and> map rpc_request calls =
               [FunctionMapRequest function_id,
                FunctionPutInputsRequest function_id [item] (function_call_id invocation)])"
    by (auto simp: create_def Let_def split: sum.splits if_splits)
next
  show "\<forall>c\<in>set (fst (pump_batches client function_id call_id batches finished)).
        rpc_method c = FunctionPutInputs
        \<and> max_retries (rpc_kwargs c) = Some Unlimited
        \<and> (\<exists>codes. additional_status_codes (rpc_kwargs c) = Some codes \<and> RESOURCE_EXHAUSTED \<in> set codes)"
    using pump_batches_calls [of _ client function_id call_id batches finished]
    by (auto simp: put_inputs_kwargs_def)
next
  show "snd (pump_batches client function_id call_id batches finished) = Returned \<longrightarrow>
        map rpc_request (fst (pump_batches client function_id call_id batches finished))
          = map (\<lambda>batch. FunctionPutInputsRequest function_id batch call_id) batches"
    using pump_batches_all by blast
next
  show "\<forall>c\<in>set (snd (map_invocation_start client function_id)).
        rpc_method c = FunctionMap \<and> rpc_kwargs c = default_kwargs"
    by (auto simp: map_invocation_start_def Let_def split: sum.splits)
qed

theorem put_inputs_retry_policy_witness:
  "map rpc_method (snd (create demo_client ''fu-1'' (PyStr ''ab'') PyNone))
     = [FunctionMap, FunctionPutInputs]
   \<and> rpc_kwargs (snd (create demo_client ''fu-1'' (PyStr ''ab'') PyNone) ! 0) = default_kwargs
   \<and> max_retries (rpc_kwargs (snd (create demo_client ''fu-1'' (PyStr ''ab'') PyNone) ! 1))
       = Some Unlimited
   \<and> (\<exists>codes. additional_status_codes
          (rpc_kwargs (snd (create demo_client ''fu-1'' (PyStr ''ab'') PyNone) ! 1)) = Some codes
        \<and> RESOURCE_EXHAUSTED \<in> set codes)
   \<and> map (max_retries \<circ> rpc_kwargs)
        (fst (pump_batches demo_client ''fu-1'' ''fc-1'' [[demo_item ''Sa'' 0], [demo_item ''Sb'' 1]] True))
       = [Some Unlimited, Some Unlimited]"
proof -
  let ?cr = "create demo_client ''fu-1'' (PyStr ''ab'') PyNone"
  let ?pb = "pump_batches demo_client ''fu-1'' ''fc-1'' [[demo_item ''Sa'' 0], [demo_item ''Sb'' 1]] True"
  note t = put_inputs_retry_policy [of demo_client "''fu-1''" "PyStr ''ab''" PyNone "''fc-1''"
      "[[demo_item ''Sa'' 0], [demo_item ''Sb'' 1]]" True]
  have ok: "fst ?cr = Inr \<lparr>inv_client = demo_client, function_call_id = ''fc-1''\<rparr>"
    by (simp add: create_def create_input_def demo_client_def demo_serialize_def Let_def)
  then have "?cr = (Inr \<lparr>inv_client = demo_client, function_call_id = ''fc-1''\<rparr>, snd ?cr)"
    by (metis prod.collapse)
  with t have m: "map rpc_method (snd ?cr) = [FunctionMap, FunctionPutInputs]"
    by blast
  then obtain c0 c1 where cs: "snd ?cr = [c0, c1]" "rpc_method c0 = FunctionMap"
    "rpc_method c1 = FunctionPutInputs"
    by (auto simp: map_eq_Cons_conv)
  from t cs have k: "rpc_kwargs c0 = default_kwargs" "max_retries (rpc_kwargs c1) = Some Unlimited"
    "\<exists>codes. additional_status_codes (rpc_kwargs c1) = Some codes \<and> RESOURCE_EXHAUSTED \<in> set codes"
    by simp_all
  have pr: "snd ?pb = Returned"
    by (simp add: demo_client_def Let_def)
  with t have "length (fst ?pb) = 2"
    by (metis (no_types, lifting) length_map length_Cons list.size(3) numeral_2_eq_2)
  then obtain p0 p1 where ps: "fst ?pb = [p0, p1]"
    by (auto simp: length_Suc_conv numeral_2_eq_2)
  from t ps have "max_retries (rpc_kwargs p0) = Some Unlimited" "max_retries (rpc_kwargs p1) = Some Unlimited"
    by simp_all
  with ps m k cs show ?thesis by simp
qed

subsection \<open>The batches of the pump task\<close>

lemma queue_batches_sizes:
  "0 < n \<Longrightarrow> length item_list < n \<Longrightarrow> b \<in> set (fst (queue_batches n item_list queue)) \<Longrightarrow>
   1 \<le> length b \<and> length b \<le> n"
proof (induction queue arbitrary: item_list)
  case Nil
  then show ?case by simp
next
  case (Cons a queue)
  show ?case
  proof (cases a)
    case None
    then show ?thesis using Cons.prems by (cases item_list) (auto split: if_splits)
  next
    case (Some x)
    show ?thesis
    proof (cases "length (item_list @ [x]) \<ge> n")
      case True
      then show ?thesis using Cons.prems Some Cons.IH [of "[]"]
        by (auto split: prod.splits)
    next
      case False
      then show ?thesis using Cons.prems Some Cons.IH [of "item_list @ [x]"]
        by auto
    qed
  qed
qed

lemma queue_batches_concat:
  "queue_batches n item_list (map Some xs @ None # queue) = (batches, finished) \<Longrightarrow>
   finished \<and> concat batches = item_list @ xs"
proof (induction xs arbitrary: item_list batches finished)
  case Nil
  then show ?case by (auto split: if_splits)
next
  case (Cons x xs)
  show ?case
  proof (cases "length (item_list @ [x]) \<ge> n")
    case True
    obtain bs fin where r: "queue_batches n [] (map Some xs @ None # queue) = (bs, fin)"
      by (cases "queue_batches n [] (map Some xs @ None # queue)")
    from Cons.IH [OF r] r True Cons.prems show ?thesis by auto
  next
    case False
    then show ?thesis using Cons.prems Cons.IH [of "item_list @ [x]" batches] by auto
  qed
qed

text \<open>
  C9. \<open>MAP_INVOCATION_CHUNK_SIZE\<close> is 100, and every call of FunctionPutInputs the pump
  task makes carries a batch of at least 1 and at most \<open>MAP_INVOCATION_CHUNK_SIZE\<close> inputs.
  When the queue holds the inputs and then the sentinel and the task returns, the batches
  it has submitted are the inputs, in order.
\<close>

theorem pump_inputs_batch_sizes:
  "MAP_INVOCATION_CHUNK_SIZE = 100
   \<and> (\<forall>c\<in>set (fst (pump_inputs client function_id call_id input_queue)).
        \<exists>batch. rpc_method c = FunctionPutInputs
          \<and> rpc_request c = FunctionPutInputsRequest function_id batch call_id
          \<and> 1 \<le> length batch \<and> length batch \<le> MAP_INVOCATION_CHUNK_SIZE)
   \<and> (\<forall>inputs rest_queue calls.
        input_queue = map Some inputs @ None # rest_queue
        \<and> pump_inputs client function_id call_id input_queue = (calls, Returned) \<longrightarrow>
        (\<exists>batches. map rpc_request calls = map (\<lambda>batch. FunctionPutInputsRequest function_id batch call_id) batches
           \<and> concat batches = inputs))"
proof (intro conjI)
  show "MAP_INVOCATION_CHUNK_SIZE = 100" by (simp add: MAP_INVOCATION_CHUNK_SIZE_def)
next
  obtain batches finished where q: "queue_batch_iterator input_queue MAP_INVOCATION_CHUNK_SIZE = (batches, finished)"
    by (cases "queue_batch_iterator input_queue MAP_INVOCATION_CHUNK_SIZE")
  show "\<forall>c\<in>set (fst (pump_inputs client function_id call_id input_queue)).
        \<exists>batch. rpc_method c = FunctionPutInputs
          \<and> rpc_request c = FunctionPutInputsRequest function_id batch call_id
          \<and> 1 \<le> length batch \<and> length batch \<le> MAP_INVOCATION_CHUNK_SIZE"
  proof
    fix c
    assume "c \<in> set (fst (pump_inputs client function_id call_id input_queue))"
    then have "c \<in> set (fst (pump_batches client function_id call_id batches finished))"
      by (simp add: pump_inputs_def q)
    from pump_batches_calls [OF this]
    obtain batch where b: "batch \<in> set batches" "rpc_method c = FunctionPutInputs"
      "rpc_request c = FunctionPutInputsRequest function_id batch call_id"
      by blast
    from b(1) q have "batch \<in> set (fst (queue_batches MAP_INVOCATION_CHUNK_SIZE [] input_queue))"
      by (simp add: queue_batch_iterator_def)
    then have "1 \<le> length batch \<and> length batch \<le> MAP_INVOCATION_CHUNK_SIZE"
      by (intro queue_batches_sizes [of _ "[]" _ input_queue]) (simp_all add: MAP_INVOCATION_CHUNK_SIZE_def)
    with b show "\<exists>batch. rpc_method c = FunctionPutInputs
          \<and> rpc_request c = FunctionPutInputsRequest function_id batch call_id
          \<and> 1 \<le> length batch \<and> length batch \<le> MAP_INVOCATION_CHUNK_SIZE"
      by blast
  qed
next
  show "\<forall>inputs rest_queue calls.
        input_queue = map Some inputs @ None # rest_queue
        \<and> pump_inputs client function_id call_id input_queue = (calls, Returned) \<longrightarrow>
        (\<exists>batches. map rpc_request calls = map (\<lambda>batch. FunctionPutInputsRequest function_id batch call_id) batches
           \<and> concat batches = inputs)"
  proof (intro allI impI, elim conjE)
    fix inputs rest_queue calls
    assume iq: "input_queue = map Some inputs @ None # rest_queue"
      and p: "pump_inputs client function_id call_id input_queue = (calls, Returned)"
    obtain batches finished where q: "queue_batches MAP_INVOCATION_CHUNK_SIZE [] input_queue = (batches, finished)"
      by (cases "queue_batches MAP_INVOCATION_CHUNK_SIZE [] input_queue")
    from queue_batches_concat [OF q [unfolded iq]] have c: "concat batches = inputs" by simp
    from p q have "pump_batches client function_id call_id batches finished = (calls, Returned)"
      by (simp add: pump_inputs_def queue_batch_iterator_def)
    with pump_batches_all [of client function_id call_id batches finished]
    have "map rpc_request calls = map (\<lambda>batch. FunctionPutInputsRequest function_id batch call_id) batches"
      by simp
    with c show "\<exists>batches. map rpc_request calls = map (\<lambda>batch. FunctionPutInputsRequest function_id batch call_id) batches
           \<and> concat batches = inputs" by blast
  qed
qed

theorem pump_inputs_batch_sizes_witness:
  "map rpc_request (fst (pump_inputs demo_client ''fu-1'' ''fc-1''
      [Some (demo_item ''Sa'' 0), Some (demo_item ''Sb'' 1), Some (demo_item ''Sc'' 2), None]))
   = [FunctionPutInputsRequest ''fu-1''
        [demo_item ''Sa'' 0, demo_item ''Sb'' 1, demo_item ''Sc'' 2] ''fc-1'']"
proof -
  let ?q = "[Some (demo_item ''Sa'' 0), Some (demo_item ''Sb'' 1), Some (demo_item ''Sc'' 2), None]"
  let ?p = "pump_inputs demo_client ''fu-1'' ''fc-1'' ?q"
  note t = pump_inputs_batch_sizes [of demo_client "''fu-1''" "''fc-1''" ?q]
  have r: "snd ?p = Returned"
    by (simp add: pump_inputs_def queue_batch_iterator_def MAP_INVOCATION_CHUNK_SIZE_def
        demo_client_def Let_def)
  have q: "?q = map Some [demo_item ''Sa'' 0, demo_item ''Sb'' 1, demo_item ''Sc'' 2] @ None # []"
    by simp
  have "?p = (fst ?p, Returned)" using r by (metis prod.collapse)
  with t q obtain batches where b:
    "map rpc_request (fst ?p) = map (\<lambda>batch. FunctionPutInputsRequest ''fu-1'' batch ''fc-1'') batches"
    "concat batches = [demo_item ''Sa'' 0, demo_item ''Sb'' 1, demo_item ''Sc'' 2]"
    by blast
  have one: "length (fst ?p) = 1"
    by (simp add: pump_inputs_def queue_batch_iterator_def MAP_INVOCATION_CHUNK_SIZE_def
        demo_client_def Let_def)
  with b(1) have "length batches = 1" by (metis length_map)
  then obtain batch where "batches = [batch]" by (auto simp: length_Suc_conv)
  with b show ?thesis by simp
qed

subsection \<open>submit\<close>

text \<open>
  C10. Let \<^verbatim>\<open>_get_context\<close> give the client and the function id. For a generator function
  \<^verbatim>\<open>submit\<close> never returns a handle: when \<^verbatim>\<open>call_generator_nowait\<close> returns an invocation,
  that is the invocation \<^verbatim>\<open>Invocation.create\<close> has started, and \<^verbatim>\<open>submit\<close> returns \<open>None\<close>
  after the same calls. For any other function \<^verbatim>\<open>submit\<close> never returns \<open>None\<close>: it
  returns a FunctionCall whose object id is the \<^verbatim>\<open>function_call_id\<close> of the invocation,
  the id FunctionMap answered.
\<close>

theorem submit_returns_handle:
  assumes "get_context m f = Inr (client, function_id)"
  shows "(is_generator f \<longrightarrow>
            (\<forall>fc calls. submit m f fn_args kwargs \<noteq> (Inr (Some fc), calls))
            \<and> (\<forall>invocation calls. call_generator_nowait m f fn_args kwargs = (Inr invocation, calls) \<longrightarrow>
                 submit m f fn_args kwargs = (Inr None, calls)
                 \<and> create client function_id fn_args kwargs = (Inr invocation, calls)))
       \<and> (\<not> is_generator f \<longrightarrow>
            (\<forall>calls. submit m f fn_args kwargs \<noteq> (Inr None, calls))
            \<and> (\<forall>invocation calls. call_function_nowait m f fn_args kwargs = (Inr invocation, calls) \<longrightarrow>
                 submit m f fn_args kwargs =
                   (Inr (Some \<lparr>fc_client = client, object_id = function_call_id invocation\<rparr>), calls)
                 \<and> stub_FunctionMap client function_id = Inr (function_call_id invocation)))"
  using assms
  by (auto simp: submit_def call_generator_nowait_def call_function_nowait_def create_def Let_def
      split: sum.splits prod.splits if_splits)

theorem submit_returns_handle_witness:
  "fst (submit demo_app_module (demo_function True) (PyStr ''ab'') PyNone) = Inr None
   \<and> map rpc_method (snd (submit demo_app_module (demo_function True) (PyStr ''ab'') PyNone))
       = [FunctionMap, FunctionPutInputs]
   \<and> fst (submit demo_app_module (demo_function False) (PyStr ''ab'') PyNone)
       = Inr (Some \<lparr>fc_client = demo_client, object_id = ''fc-1''\<rparr>)"
proof -
  have ctx: "\<And>g. get_context demo_app_module (demo_function g) = Inr (demo_client, ''fu-1'')"
    by (simp add: get_context_def demo_app_module_def demo_function_def)
  have cr: "create demo_client ''fu-1'' (PyStr ''ab'') PyNone =
      (Inr \<lparr>inv_client = demo_client, function_call_id = ''fc-1''\<rparr>,
       snd (create demo_client ''fu-1'' (PyStr ''ab'') PyNone))"
    "map rpc_method (snd (create demo_client ''fu-1'' (PyStr ''ab'') PyNone))
       = [FunctionMap, FunctionPutInputs]"
    by (simp_all add: create_def create_input_def demo_client_def demo_serialize_def Let_def)
  have g: "call_generator_nowait demo_app_module (demo_function True) (PyStr ''ab'') PyNone =
      (Inr \<lparr>inv_client = demo_client, function_call_id = ''fc-1''\<rparr>,
       snd (create demo_client ''fu-1'' (PyStr ''ab'') PyNone))"
    using cr(1) by (simp add: call_generator_nowait_def ctx)
  have f: "call_function_nowait demo_app_module (demo_function False) (PyStr ''ab'') PyNone =
      (Inr \<lparr>inv_client = demo_client, function_call_id = ''fc-1''\<rparr>,
       snd (create demo_client ''fu-1'' (PyStr ''ab'') PyNone))"
    using cr(1) by (simp add: call_function_nowait_def ctx)
  have ig: "is_generator (demo_function True)" "\<not> is_generator (demo_function False)"
    by (simp_all add: demo_function_def)
  from submit_returns_handle [OF ctx, of True "PyStr ''ab''" PyNone] ig g
  have a: "submit demo_app_module (demo_function True) (PyStr ''ab'') PyNone =
      (Inr None, snd (create demo_client ''fu-1'' (PyStr ''ab'') PyNone))"
    by blast
  from submit_returns_handle [OF ctx, of False "PyStr ''ab''" PyNone] ig f
  have b: "submit demo_app_module (demo_function False) (PyStr ''ab'') PyNone =
      (Inr (Some \<lparr>fc_client = demo_client, object_id = ''fc-1''\<rparr>),
       snd (create demo_client ''fu-1'' (PyStr ''ab'') PyNone))"
    by simp
  from a b cr(2) show ?thesis by simp
qed

subsection \<open>The Map engine: when poll_outputs ends\<close>


lemma received_Cons:
  "received (ev # script) = (case response ev of Inl e \<Rightarrow> [] | Inr outputs \<Rightarrow> outputs) @ received script"
  by (simp add: received_def)


lemma send_sequentially_pending_inv:
  "pending_inv seen st \<Longrightarrow> pending_inv seen (send_sequentially st)"
proof (induction st rule: send_sequentially.induct)
  case (1 st)
  show ?case
  proof (cases "map_of (pending_outputs st) (num_outputs st)")
    case None
    then show ?thesis using 1 by (subst send_sequentially.simps) simp
  next
    case (Some v)
    let ?st = "st\<lparr>pending_outputs := AList.delete (num_outputs st) (pending_outputs st),
                yielded := yielded st @ [OutputValue v],
                num_outputs := num_outputs st + 1\<rparr>"
    have "pending_inv seen ?st"
      using "1.prems" Some
      by (auto simp: pending_inv_def AList.delete_conv' less_Suc_eq split: if_splits)
    from "1.IH" [OF Some this] Some show ?thesis
      by (subst send_sequentially.simps) simp
  qed
qed

lemma send_sequentially_done:
  "map_of (pending_outputs (send_sequentially st)) (num_outputs (send_sequentially st)) = None"
proof (induction st rule: send_sequentially.induct)
  case (1 st)
  show ?case
  proof (cases "map_of (pending_outputs st) (num_outputs st)")
    case None
    then show ?thesis by (subst (1 2) send_sequentially.simps) simp
  next
    case (Some v)
    from 1 [OF Some] Some show ?thesis
      by (subst (1 2) send_sequentially.simps) simp
  qed
qed

lemma store_outputs_pending_inv:
  "store_outputs client False outs st = (st1, None) \<Longrightarrow> pending_inv seen st \<Longrightarrow>
   idx ` set outs \<inter> seen = {} \<Longrightarrow> distinct (map idx outs) \<Longrightarrow>
   pending_inv (seen \<union> idx ` set outs) st1"
proof (induction outs arbitrary: st seen)
  case Nil
  then show ?case by simp
next
  case (Cons item outs)
  from Cons.prems(1) obtain v where p: "process_result client (result item) = Inr v"
    and s: "store_outputs client False outs
              (st\<lparr>pending_outputs := AList.update (idx item) v (pending_outputs st)\<rparr>) = (st1, None)"
    by (auto split: sum.splits)
  have a: "pending_inv (insert (idx item) seen)
          (st\<lparr>pending_outputs := AList.update (idx item) v (pending_outputs st)\<rparr>)"
    using Cons.prems(2,3)
    by (auto simp: pending_inv_def AList.update_conv' split: if_splits)
  have b: "idx ` set outs \<inter> insert (idx item) seen = {}"
    using Cons.prems(3,4) by auto
  have c: "distinct (map idx outs)"
    using Cons.prems(4) by simp
  from Cons.IH [OF s a b c] show ?case by simp
qed



lemma store_outputs_decodes:
  "\<forall>item\<in>set outs. \<exists>v. process_result client (result item) = Inr v \<Longrightarrow>
   \<exists>st1. store_outputs client False outs st = (st1, None)"
  by (induction outs arbitrary: st) auto

lemma pending_inv_check:
  assumes "pending_inv seen st" and "seen \<subseteq> {0..<n}"
  shows "num_outputs st \<le> n" and "num_outputs st = n \<Longrightarrow> pending_outputs st = []"
proof -
  show le: "num_outputs st \<le> n"
  proof (rule ccontr)
    assume "\<not> num_outputs st \<le> n"
    then have "n \<in> {0..<num_outputs st}" by simp
    with assms show False by (auto simp: pending_inv_def)
  qed
  assume "num_outputs st = n"
  with assms have "dom (map_of (pending_outputs st)) = {}"
    unfolding pending_inv_def by blast
  then show "pending_outputs st = []" by simp
qed


lemma poll_outputs_loop_completes:
  assumes "pending_inv seen st"
    and "distinct (map idx (received script))"
    and "idx ` set (received script) \<inter> seen = {}"
    and "seen \<union> idx ` set (received script) = {0..<n}"
    and "\<forall>ev\<in>set script. seen_have_all_inputs ev \<longrightarrow> seen_num_inputs ev = n"
    and "\<forall>ev\<in>set script. \<exists>outs. response ev = Inr outs"
    and "\<forall>item\<in>set (received script). \<exists>v. process_result client (result item) = Inr v"
    and "script \<noteq> []" and "seen_have_all_inputs (last script)"
  shows "snd (poll_outputs_loop client False st script) = Returned"
  using assms
proof (induction script arbitrary: st seen)
  case Nil
  then show ?case by simp
next
  case (Cons ev script)
  from Cons.prems(6) obtain outs where Inr: "response ev = Inr outs" by auto
  have rc: "received (ev # script) = outs @ received script"
    by (simp add: received_Cons Inr)
  from Cons.prems(7) rc obtain st1 where s: "store_outputs client False outs st = (st1, None)"
    using store_outputs_decodes [of outs client st] by auto
  let ?seen = "seen \<union> idx ` set outs"
  let ?st3 = "(send_sequentially st1)\<lparr>have_all_inputs := seen_have_all_inputs ev,
                              num_inputs := seen_num_inputs ev\<rparr>"
  have "pending_inv ?seen st1"
    using s Cons.prems(1,2,3) rc
    by (intro store_outputs_pending_inv [where st = st]) auto
  then have p2: "pending_inv ?seen (send_sequentially st1)"
    by (rule send_sequentially_pending_inv)
  then have p3: "pending_inv ?seen ?st3"
    by (simp add: pending_inv_def)
  have sub: "?seen \<subseteq> {0..<n}" using Cons.prems(4) rc by auto
  note chk = pending_inv_check [OF p3 sub]
  show ?case
  proof (cases "script = []")
    case True
    have "received (ev # script) = outs" using True rc by (simp add: received_def)
    with True have all: "?seen = {0..<n}" and ha: "seen_have_all_inputs ev"
      using Cons.prems(4,9) by simp_all
    have "num_outputs ?st3 = n"
    proof (rule ccontr)
      assume ne: "num_outputs ?st3 \<noteq> n"
      with chk(1) have lt: "num_outputs (send_sequentially st1) < n" by simp
      then have "num_outputs (send_sequentially st1) \<in> ?seen" using all by simp
      with p2 lt have "num_outputs (send_sequentially st1) \<in> dom (map_of (pending_outputs (send_sequentially st1)))"
        unfolding pending_inv_def by (metis Un_iff atLeastLessThan_iff less_irrefl)
      with send_sequentially_done [of st1] show False by auto
    qed
    then show ?thesis
      using Inr s chk ha Cons.prems(5) by (auto simp: Let_def poll_turn_def)
  next
    case False
    have ih: "snd (poll_outputs_loop client False ?st3 script) = Returned"
      using Cons.prems rc False
      by (intro Cons.IH [OF p3]) (auto simp: Un_assoc)
    show ?thesis
      using Inr s chk ih Cons.prems(5)
      by (auto simp: Let_def poll_turn_def)
  qed
qed


lemma pending_inv_initial: "pending_inv {} initial_map_state"
  by (simp add: pending_inv_def initial_map_state_def)

lemma poll_outputs_completes:
  assumes "\<forall>ev\<in>set script. \<exists>outs. response ev = Inr outs"
    and "\<forall>item\<in>set (received script). \<exists>v. process_result client (result item) = Inr v"
    and "distinct (map idx (received script))"
    and "idx ` set (received script) = {0..<n}"
    and "\<forall>ev\<in>set script. seen_have_all_inputs ev \<longrightarrow> seen_num_inputs ev = n"
    and "script \<noteq> []" and "seen_have_all_inputs (last script)"
  shows "snd (poll_outputs client False script) = Returned"
  unfolding poll_outputs_def
  using assms by (intro poll_outputs_loop_completes [OF pending_inv_initial]) auto










subsection \<open>The Map engine: the order of the outputs\<close>

lemma create_input_idx:
  "create_input client fn_args kwargs (Some i) = Inr item \<Longrightarrow> item_idx item = i"
  by (auto simp: create_input_def split: sum.splits if_splits)

lemma drain_input_generator_queue:
  "drain_input_generator client inputs kwargs start = (queue, n, Returned) \<Longrightarrow>
   n = start + length inputs \<and> length queue = Suc (length inputs) \<and> queue ! length inputs = None
   \<and> (\<forall>i<length inputs. \<exists>item. queue ! i = Some item \<and> item_idx item = start + i
          \<and> create_input client (inputs ! i) kwargs (Some (start + i)) = Inr item)"
proof (induction inputs arbitrary: start queue)
  case Nil
  then show ?case by auto
next
  case (Cons a inputs)
  from Cons.prems obtain item q where c: "create_input client a kwargs (Some start) = Inr item"
    and d: "drain_input_generator client inputs kwargs (Suc start) = (q, n, Returned)"
    and q: "queue = Some item # q"
    by (auto split: sum.splits prod.splits)
  from Cons.IH [OF d] have ih: "n = Suc start + length inputs" "length q = Suc (length inputs)"
    "q ! length inputs = None"
    "\<forall>i<length inputs. \<exists>item. q ! i = Some item \<and> item_idx item = Suc start + i
          \<and> create_input client (inputs ! i) kwargs (Some (Suc start + i)) = Inr item"
    by auto
  have "\<forall>i<length (a # inputs). \<exists>item. queue ! i = Some item \<and> item_idx item = start + i
          \<and> create_input client ((a # inputs) ! i) kwargs (Some (start + i)) = Inr item"
  proof (intro allI impI)
    fix i
    assume i: "i < length (a # inputs)"
    show "\<exists>item. queue ! i = Some item \<and> item_idx item = start + i
          \<and> create_input client ((a # inputs) ! i) kwargs (Some (start + i)) = Inr item"
    proof (cases i)
      case 0
      then show ?thesis using c q create_input_idx [OF c] by simp
    next
      case (Suc j)
      then show ?thesis using i ih(4) q by auto
    qed
  qed
  with ih q show ?case by simp
qed












end
